theory Spec2Isabelle
  imports Main
begin

section \<open>JavaScript values of the harvester\<close>

text \<open>
  A JavaScript string is a sequence of UTF-16 code units; the keyword lists of the
  classifier are Cyrillic, so code units are numbers. A valid \<open>Date\<close> is its time value,
  the milliseconds since the epoch; \<open>Invalid Date\<close> is \<open>None\<close> where it can occur.
  The text \<open>YYYY-MM-DD\<close> that \<open>d.toISOString().split('T')[0]\<close> yields is
  represented by the number of the UTC day it names (days since 1970-01-01).
\<close>

type_synonym jsstring = "nat list"
type_synonym timestamp = int

definition msPerDay :: int where
  "msPerDay = 86400000"

text \<open>\<open>d.toISOString().split('T')[0]\<close>: the UTC day of a time value.\<close>

definition isoDate :: "timestamp \<Rightarrow> int" where
  "isoDate t = t div msPerDay"

text \<open>
  A time value lies within 8.64e15 ms of the epoch. \<open>TimeClip\<close> turns any other
  number into \<open>NaN\<close>, the time value of \<open>Invalid Date\<close>.
\<close>

definition maxTime :: int where
  "maxTime = 8640000000000000"

definition timeClip :: "int \<Rightarrow> timestamp option" where
  "timeClip t = (if - maxTime \<le> t \<and> t \<le> maxTime then Some t else None)"

text \<open>
  The time zone of the process is part of its environment. The offset of local time
  from UTC, in milliseconds, is less than a day in absolute value, as it is in every
  zone of the time zone database. A zone gives the offset in force at a UTC instant
  (\<open>LocalTZA(t, true)\<close> of ECMAScript) and the offset that belongs to a local time
  (\<open>LocalTZA(t, false)\<close>); \<open>LocalTime\<close> and \<open>UTC\<close> are the two conversions of
  ECMAScript.
\<close>

typedef tz_offset = "{x :: int. - msPerDay < x \<and> x < msPerDay}"
  by (rule exI[of _ 0]) (simp add: msPerDay_def)

type_synonym zone = "timestamp \<Rightarrow> bool \<Rightarrow> tz_offset"

definition LocalTime :: "zone \<Rightarrow> timestamp \<Rightarrow> int" where
  "LocalTime z t = t + Rep_tz_offset (z t True)"

definition UTC :: "zone \<Rightarrow> int \<Rightarrow> int" where
  "UTC z t = t - Rep_tz_offset (z t False)"

text \<open>
  \<open>d.setDate(d.getDate() + n)\<close> on a valid date: the day of the month is read and set
  in local time, so the local time moves by \<open>n\<close> whole days and keeps its time of day;
  the result is converted back to UTC and clipped. The new time value is \<open>None\<close> when
  it leaves the range of \<open>Date\<close>.
\<close>

definition setDate_plus :: "zone \<Rightarrow> timestamp \<Rightarrow> int \<Rightarrow> timestamp option" where
  "setDate_plus z t n = timeClip (UTC z (LocalTime z t + n * msPerDay))"

text \<open>
  The calendar of ECMAScript: \<open>DayFromYear(y)\<close> is the day number of January 1 of year
  \<open>y\<close>, and \<open>YearFromTime(t)\<close> the largest year whose first day is not after \<open>t\<close>; it
  is found by counting years up or down from 1970.
\<close>

definition DayFromYear :: "int \<Rightarrow> int" where
  "DayFromYear y =
     365 * (y - 1970) + (y - 1969) div 4 - (y - 1901) div 100 + (y - 1601) div 400"

function year_up :: "int \<Rightarrow> int \<Rightarrow> int" where
  "year_up y d = (if DayFromYear (y + 1) \<le> d then year_up (y + 1) d else y)"
  by pat_completeness auto
termination
  by (relation "measure (\<lambda>(y, d). nat (d + 1 - DayFromYear (y + 1)))")
     (auto simp: DayFromYear_def)

function year_down :: "int \<Rightarrow> int \<Rightarrow> int" where
  "year_down y d = (if d < DayFromYear y then year_down (y - 1) d else y)"
  by pat_completeness auto
termination
  by (relation "measure (\<lambda>(y, d). nat (DayFromYear y - d))")
     (auto simp: DayFromYear_def)

declare year_up.simps [simp del]
declare year_down.simps [simp del]

definition YearFromTime :: "int \<Rightarrow> int" where
  "YearFromTime t =
     (if 0 \<le> t div msPerDay then year_up 1970 (t div msPerDay)
      else year_down 1969 (t div msPerDay))"

text \<open>\<open>d.getFullYear()\<close> on a valid date: the year of its local time.\<close>

definition getFullYear :: "zone \<Rightarrow> timestamp \<Rightarrow> int" where
  "getFullYear z t = YearFromTime (LocalTime z t)"

text \<open>
  \<open>new Date(year, 0, 1)\<close>: local midnight of January 1; a year from 0 to 99 stands for
  1900 + year.
\<close>

definition newDate_Jan1 :: "zone \<Rightarrow> int \<Rightarrow> timestamp option" where
  "newDate_Jan1 z year =
     timeClip (UTC z (DayFromYear (if 0 \<le> year \<and> year \<le> 99 then 1900 + year else year)
                       * msPerDay))"

text \<open>\<open>x || ''\<close> and the truthiness of an optional string field.\<close>

definition orEmpty :: "jsstring option \<Rightarrow> jsstring" where
  "orEmpty v = (case v of None \<Rightarrow> [] | Some s \<Rightarrow> s)"

definition truthy :: "jsstring option \<Rightarrow> bool" where
  "truthy v = (case v of None \<Rightarrow> False | Some s \<Rightarrow> s \<noteq> [])"

text \<open>\<open>text.includes(keyword)\<close>: the keyword occurs as a contiguous run of the text.\<close>

fun startsWith :: "'a list \<Rightarrow> 'a list \<Rightarrow> bool" where
  "startsWith t [] = True"
| "startsWith [] (k # ks) = False"
| "startsWith (c # t) (k # ks) = (c = k \<and> startsWith t ks)"

fun includes_text :: "'a list \<Rightarrow> 'a list \<Rightarrow> bool" where
  "includes_text [] k = (k = [])"
| "includes_text (c # t) k = (startsWith (c # t) k \<or> includes_text t k)"

section \<open>Search requests and responses\<close>

text \<open>
  The request body of \<open>processDateRange\<close>. Its other fields (\<open>Courts\<close>, \<open>Sides\<close>,
  \<open>Judges\<close>, ..., \<open>DateType\<close>) are the same constants in every request and are left out.
\<close>

record 'a date_range =
  DateFrom :: 'a
  DateTo :: 'a

record search_params = "int date_range" +
  Page :: int
  Count :: int

text \<open>One row of \<open>response.data\<close>, an object; every field may be missing or null.\<close>

record doc =
  CaseNumber :: "jsstring option"
  Title :: "jsstring option"
  Date :: "jsstring option"
  DocumentUrl :: "jsstring option"

text \<open>
  The parsed body of a search response: a falsy value (\<open>null\<close>), or a value with or
  without a \<open>data\<close> array.
\<close>

datatype response = FalsyBody | Body "doc list option"

text \<open>
  What the portal does with one request: the navigation or the fetch times out, or an
  HTTP status arrives with a body that parses as JSON (\<open>Some\<close>) or does not (\<open>None\<close>).
\<close>

datatype portal_reply = Timeout | Http nat "response option"

datatype js_error = TimeoutError | HttpError nat | SyntaxError | TypeError | FsError | RangeError

text \<open>
  The world around one run: \<open>String.prototype.toLowerCase\<close> of the runtime, the
  portal's answer to a search request, the decimal text of \<open>Date.now()\<close> at the
  \<open>n\<close>-th download of the run, the outcome of \<open>downloadPDF(pdfUrl, filename)\<close> (the
  path of the written file, or \<open>None\<close> for its \<open>null\<close>: the method catches every error
  of its own), the clock read by \<open>new Date()\<close> at the end of the run, and the time
  zone of the process.
\<close>

record env =
  toLowerCase :: "jsstring \<Rightarrow> jsstring"
  portal :: "search_params \<Rightarrow> portal_reply"
  dateNow :: "nat \<Rightarrow> jsstring"
  downloadPDF :: "jsstring \<Rightarrow> jsstring \<Rightarrow> jsstring option"
  clock :: timestamp
  localTZA :: zone

text \<open>\<open>response.ok\<close>: the status is in the range 200..299.\<close>

definition ok :: "nat \<Rightarrow> bool" where
  "ok status = (200 \<le> status \<and> status \<le> 299)"

text \<open>
  \<open>searchDocuments\<close>: one request; a status outside 2xx, a timeout and an unparsable
  body are thrown, whatever the status class.
\<close>

definition searchDocuments :: "env \<Rightarrow> search_params \<Rightarrow> js_error + response" where
  "searchDocuments e params =
     (case portal e params of
        Timeout \<Rightarrow> Inl TimeoutError
      | Http status body \<Rightarrow>
          (if \<not> ok status then Inl (HttpError status)
           else (case body of None \<Rightarrow> Inl SyntaxError | Some r \<Rightarrow> Inr r)))"

section \<open>The ledger and the state of a run\<close>

record entry =
  caseNumber :: "jsstring option"
  title :: "jsstring option"
  date :: "jsstring option"
  url :: jsstring
  filepath :: jsstring

text \<open>
  The ledger file \<open>{processed_at, total_documents, documents}\<close>. Its \<open>total_documents\<close>
  field is shared with the record that \<open>getStats\<close> returns, where it holds a JSON value.
\<close>

record 'a counted =
  total_documents :: 'a

record metadata = "nat counted" +
  processed_at :: timestamp
  documents :: "entry list"

text \<open>
  \<open>results\<close> is the local array of \<open>processDateRange\<close>, \<open>metadata_file\<close> the content of
  \<open>metadata.json\<close> on disk (\<open>None\<close>: no such file). \<open>requests\<close> and \<open>downloads\<close> record
  the calls of \<open>searchDocuments\<close> and \<open>downloadPDF\<close> in the order they are made.
\<close>

record state =
  results :: "entry list"
  metadata_file :: "metadata option"
  requests :: "search_params list"
  downloads :: "jsstring list"

section \<open>Classification and download of one result\<close>

definition excludeKeywords :: "jsstring list" where
  "excludeKeywords =
     [[1087, 1077, 1088, 1077, 1085, 1086, 1089],
      [1086, 1090, 1083, 1086, 1078, 1077, 1085, 1080, 1077],
      [1085, 1072, 1079, 1085, 1072, 1095, 1077, 1085, 1080, 1077],
      [1074, 1082, 1083, 1102, 1095, 1077, 1085, 1080, 1077, 32, 1074, 32,
       1088, 1077, 1077, 1089, 1090, 1088]]"

definition includeKeywords :: "jsstring list" where
  "includeKeywords =
     [[1088, 1077, 1096, 1077, 1085, 1080, 1077],
      [1082, 1072, 1089, 1089, 1072, 1094, 1080, 1103],
      [1086, 1087, 1088, 1077, 1076, 1077, 1083, 1077, 1085, 1080, 1077]]"

definition unknown :: jsstring where
  "unknown = [117, 110, 107, 110, 111, 119, 110]"

definition doc_text :: "env \<Rightarrow> doc \<Rightarrow> jsstring" where
  "doc_text e d = toLowerCase e (orEmpty (CaseNumber d) @ [32] @ orEmpty (Title d))"

definition shouldExclude :: "jsstring \<Rightarrow> bool" where
  "shouldExclude txt = list_ex (\<lambda>keyword. includes_text txt keyword) excludeKeywords"

definition shouldInclude :: "jsstring \<Rightarrow> bool" where
  "shouldInclude txt = list_ex (\<lambda>keyword. includes_text txt keyword) includeKeywords"

text \<open>\<open>`${doc.CaseNumber || 'unknown'}_${Date.now()}.pdf`\<close>\<close>

definition filename :: "env \<Rightarrow> state \<Rightarrow> doc \<Rightarrow> jsstring" where
  "filename e st d =
     (if truthy (CaseNumber d) then orEmpty (CaseNumber d) else unknown)
       @ [95] @ dateNow e (length (downloads st)) @ [46, 112, 100, 102]"

text \<open>The body of the loop over \<open>response.data\<close>.\<close>

definition process_doc :: "env \<Rightarrow> state \<Rightarrow> doc \<Rightarrow> state" where
  "process_doc e st d =
     (if shouldExclude (doc_text e d) then st
      else if shouldInclude (doc_text e d) \<and> truthy (DocumentUrl d) then
        (let u = orEmpty (DocumentUrl d);
             st1 = st\<lparr>downloads := downloads st @ [u]\<rparr>
         in case downloadPDF e u (filename e st d) of
              None \<Rightarrow> st1
            | Some fp \<Rightarrow>
                st1\<lparr>results := results st1 @
                  [\<lparr>caseNumber = CaseNumber d, title = Title d, date = Date d,
                    url = u, filepath = fp\<rparr>]\<rparr>)
      else st)"

text \<open>
  A result that passes the filter in state \<open>st\<close> and whose download succeeds: \<open>u\<close> is
  its \<open>DocumentUrl\<close> and \<open>fp\<close> the path \<open>downloadPDF\<close> returns.
\<close>

definition harvested :: "env \<Rightarrow> state \<Rightarrow> doc \<Rightarrow> jsstring \<Rightarrow> jsstring \<Rightarrow> bool" where
  "harvested e st d u fp =
     (\<not> shouldExclude (doc_text e d) \<and> shouldInclude (doc_text e d)
      \<and> DocumentUrl d = Some u \<and> u \<noteq> []
      \<and> downloadPDF e u (filename e st d) = Some fp)"

definition process_docs :: "env \<Rightarrow> state \<Rightarrow> doc list \<Rightarrow> state" where
  "process_docs e st ds = fold (\<lambda>d s. process_doc e s d) ds st"

section \<open>Pages of a window, windows of a range\<close>

text \<open>\<open>!response || !response.data || response.data.length === 0\<close>\<close>

fun page_empty :: "response \<Rightarrow> bool" where
  "page_empty FalsyBody = True"
| "page_empty (Body None) = True"
| "page_empty (Body (Some ds)) = (ds = [])"

fun page_data :: "response \<Rightarrow> doc list" where
  "page_data (Body (Some ds)) = ds"
| "page_data _ = []"

text \<open>
  The \<open>for (let page = 1; page <= maxPages; page++)\<close> loop, entered at \<open>page\<close>. The
  result says whether the loop was left by an exception, and gives the state reached:
  what was pushed and requested before a throw stays.
\<close>

function pages_loop ::
  "env \<Rightarrow> int \<Rightarrow> search_params \<Rightarrow> int \<Rightarrow> state \<Rightarrow> js_error option \<times> state" where
  "pages_loop e maxPages searchParams page st =
     (if page \<le> maxPages then
        (let sp = searchParams\<lparr>Page := page\<rparr>;
             st1 = st\<lparr>requests := requests st @ [sp]\<rparr>
         in case searchDocuments e sp of
              Inl err \<Rightarrow> (Some err, st1)
            | Inr response \<Rightarrow>
                (if page_empty response then (None, st1)
                 else pages_loop e maxPages sp (page + 1)
                        (process_docs e st1 (page_data response))))
      else (None, st))"
  by pat_completeness auto
termination
  by (relation "measure (\<lambda>(e, maxPages, searchParams, page, st). nat (maxPages + 1 - page))") auto

declare pages_loop.simps [simp del]

text \<open>
  The request body built at the top of the \<open>try\<close> block of the window from
  \<open>currentDate\<close> to \<open>nextDate\<close>.
\<close>

definition window_params :: "timestamp \<Rightarrow> timestamp \<Rightarrow> search_params" where
  "window_params currentDate nextDate =
     \<lparr>DateFrom = isoDate currentDate, DateTo = isoDate nextDate, Page = 1, Count = 25\<rparr>"

text \<open>The \<open>try { ... } catch (error) { console.error(...) }\<close> around one window.\<close>

definition process_window ::
  "env \<Rightarrow> int \<Rightarrow> timestamp \<Rightarrow> timestamp \<Rightarrow> state \<Rightarrow> state" where
  "process_window e maxPages currentDate nextDate st =
     snd (pages_loop e maxPages (window_params currentDate nextDate) 1 st)"

text \<open>
  The \<open>while (currentDate <= endDateObj)\<close> loop. The \<open>console.log\<close> at the top of its
  body formats \<open>nextDate\<close> before the \<open>try\<close> block is entered: when \<open>nextDate\<close> has
  left the range of \<open>Date\<close>, \<open>toISOString\<close> throws a \<open>RangeError\<close> that nothing in
  \<open>processDateRange\<close> catches.
\<close>

function windows_loop ::
  "env \<Rightarrow> int \<Rightarrow> timestamp \<Rightarrow> timestamp \<Rightarrow> state \<Rightarrow> js_error option \<times> state" where
  "windows_loop e maxPages endDateObj currentDate st =
     (if currentDate \<le> endDateObj then
        (case setDate_plus (localTZA e) currentDate 2 of
           None \<Rightarrow> (Some RangeError, st)
         | Some nextDate \<Rightarrow>
             windows_loop e maxPages endDateObj nextDate
               (process_window e maxPages currentDate nextDate st))
      else (None, st))"
  by pat_completeness auto
termination
proof (relation "measure (\<lambda>(e, maxPages, endDateObj, currentDate, st).
        nat (endDateObj + 1 - currentDate))")
  fix e :: env and maxPages endDateObj currentDate :: int and st :: state and nextDate
  assume "currentDate \<le> endDateObj"
    and "setDate_plus (localTZA e) currentDate 2 = Some nextDate"
  then show "((e, maxPages, endDateObj, nextDate,
               process_window e maxPages currentDate nextDate st),
              e, maxPages, endDateObj, currentDate, st)
             \<in> measure (\<lambda>(e, maxPages, endDateObj, currentDate, st).
                  nat (endDateObj + 1 - currentDate))"
    using Rep_tz_offset[of "localTZA e currentDate True"]
      Rep_tz_offset[of "localTZA e (LocalTime (localTZA e) currentDate + 2 * msPerDay) False"]
    by (auto simp: setDate_plus_def timeClip_def UTC_def LocalTime_def msPerDay_def
             split: if_splits)
qed simp

declare windows_loop.simps [simp del]

text \<open>The write of \<open>metadata.json\<close> after the loop.\<close>

definition write_metadata :: "env \<Rightarrow> state \<Rightarrow> state" where
  "write_metadata e st =
     st\<lparr>metadata_file :=
          Some \<lparr>total_documents = length (results st), processed_at = clock e,
                documents = results st\<rparr>\<rparr>"

text \<open>
  \<open>processDateRange(startDate, endDate, maxPages)\<close>, run on the disk content \<open>disk\<close>;
  the calls of \<open>fs\<close> succeed. The result is the error the call throws, if any, and the
  state it leaves.
  \<open>new Date(startDate)\<close> and \<open>new Date(endDate)\<close> are the two optional time values; a
  comparison with \<open>Invalid Date\<close> is false, so the loop body never runs then. An error
  thrown in the loop leaves the function before \<open>metadata.json\<close> is written.
\<close>

definition processDateRange ::
  "env \<Rightarrow> timestamp option \<Rightarrow> timestamp option \<Rightarrow> int \<Rightarrow> metadata option
     \<Rightarrow> js_error option \<times> state" where
  "processDateRange e startDate endDate maxPages disk =
     (let st0 = \<lparr>results = [], metadata_file = disk, requests = [], downloads = []\<rparr>
      in case (startDate, endDate) of
           (Some currentDate, Some endDateObj) \<Rightarrow>
              (case windows_loop e maxPages endDateObj currentDate st0 of
                 (None, st) \<Rightarrow> (None, write_metadata e st)
               | (Some err, st) \<Rightarrow> (Some err, st))
         | _ \<Rightarrow> (None, write_metadata e st0))"

text \<open>
  The windows of a run in the zone \<open>z\<close>: the dates of the first request of each
  window, in order.
\<close>

function windows :: "zone \<Rightarrow> timestamp \<Rightarrow> timestamp \<Rightarrow> (int \<times> int) list" where
  "windows z endDateObj currentDate =
     (if currentDate \<le> endDateObj then
        (case setDate_plus z currentDate 2 of
           None \<Rightarrow> []
         | Some nextDate \<Rightarrow>
             (isoDate currentDate, isoDate nextDate) # windows z endDateObj nextDate)
      else [])"
  by pat_completeness auto
termination
proof (relation "measure (\<lambda>(z, endDateObj, currentDate). nat (endDateObj + 1 - currentDate))")
  fix z :: zone and endDateObj currentDate :: int and nextDate
  assume "currentDate \<le> endDateObj"
    and "setDate_plus z currentDate 2 = Some nextDate"
  then show "((z, endDateObj, nextDate), z, endDateObj, currentDate)
             \<in> measure (\<lambda>(z, endDateObj, currentDate). nat (endDateObj + 1 - currentDate))"
    using Rep_tz_offset[of "z currentDate True"]
      Rep_tz_offset[of "z (LocalTime z currentDate + 2 * msPerDay) False"]
    by (auto simp: setDate_plus_def timeClip_def UTC_def LocalTime_def msPerDay_def
             split: if_splits)
qed simp

declare windows.simps [simp del]

section \<open>The cookie extractor\<close>

text \<open>
  \<open>extracted_cookies\<close> is an object from cookie names to values: its properties in
  insertion order, each name once. Cookie names and values are ASCII texts. A message of
  \<open>validateCookies\<close> is its template with the values filled in.
\<close>

datatype notice =
    MissingCritical string jsstring
  | MissingOptional string jsstring
  | FewCookies nat

record critical_cookie =
  found :: bool
  description :: jsstring
  cookie_value :: string

record validation =
  isValid :: bool
  errors :: "notice list"
  warnings :: "notice list"
  foundCookies :: "string list"
  criticalCookies :: "(string \<times> critical_cookie) list"

definition pr_fp_description :: jsstring where
  "pr_fp_description =
     [1054, 1089, 1085, 1086, 1074, 1085, 1086, 1081, 32, 102, 105, 110, 103, 101, 114,
      112, 114, 105, 110, 116, 32, 99, 111, 111, 107, 105, 101]"

definition criticalCookiesTable :: "(string \<times> jsstring) list" where
  "criticalCookiesTable =
     [(''pr_fp'', pr_fp_description),
      (''wasm'',
       [87, 101, 98, 65, 115, 115, 101, 109, 98, 108, 121, 32, 1090, 1086, 1082, 1077,
        1085, 32, 40, 1086, 1087, 1094, 1080, 1086, 1085, 1072, 1083, 1100, 1085, 1099,
        1081, 41]),
      (''PHPSESSID'',
       [80, 72, 80, 32, 1089, 1077, 1089, 1089, 1080, 1103, 32, 40, 1086, 1087, 1094, 1080,
        1086, 1085, 1072, 1083, 1100, 1085, 1099, 1081, 41]),
      (''ASP.NET_SessionId'',
       [65, 83, 80, 46, 78, 69, 84, 32, 1089, 1077, 1089, 1089, 1080, 1103, 32, 40, 1086,
        1087, 1094, 1080, 1086, 1085, 1072, 1083, 1100, 1085, 1099, 1081, 41])]"

text \<open>\<open>if (this.extracted_cookies[cookieName])\<close>: the cookie is there and its value is not empty.\<close>

definition cookie_set :: "(string \<times> string) list \<Rightarrow> string \<Rightarrow> bool" where
  "cookie_set extracted_cookies cookieName =
     (case map_of extracted_cookies cookieName of None \<Rightarrow> False | Some v \<Rightarrow> v \<noteq> [])"

text \<open>The body of the loop over \<open>Object.entries(criticalCookies)\<close>.\<close>

definition check_cookie ::
  "(string \<times> string) list \<Rightarrow> validation \<Rightarrow> string \<times> jsstring \<Rightarrow> validation" where
  "check_cookie extracted_cookies validation entry =
     (case entry of (cookieName, desc) \<Rightarrow>
        if cookie_set extracted_cookies cookieName then
          validation\<lparr>criticalCookies := criticalCookies validation @
            [(cookieName,
              \<lparr>found = True, description = desc,
               cookie_value =
                 take 20 (case map_of extracted_cookies cookieName of
                            None \<Rightarrow> [] | Some v \<Rightarrow> v) @ ''...''\<rparr>)]\<rparr>
        else if cookieName = ''pr_fp'' then
          validation\<lparr>isValid := False,
                     errors := errors validation @ [MissingCritical cookieName desc]\<rparr>
        else
          validation\<lparr>warnings := warnings validation @ [MissingOptional cookieName desc]\<rparr>)"

definition validateCookies :: "(string \<times> string) list \<Rightarrow> validation" where
  "validateCookies extracted_cookies =
     (let validation = fold (\<lambda>entry v. check_cookie extracted_cookies v entry)
            criticalCookiesTable
            \<lparr>isValid = True, errors = [], warnings = [],
             foundCookies = map fst extracted_cookies, criticalCookies = []\<rparr>;
          totalCookies = length extracted_cookies
      in if totalCookies < 5
         then validation\<lparr>warnings := warnings validation @ [FewCookies totalCookies]\<rparr>
         else validation)"

text \<open>
  An argument of \<open>getApiDates\<close>: a falsy value (\<open>null\<close>, \<open>undefined\<close>, \<open>''\<close>, \<open>0\<close>,
  \<open>false\<close>, \<open>NaN\<close>) or a truthy one, each with what \<open>new Date\<close> makes of it: a time
  value, or \<open>None\<close> for \<open>Invalid Date\<close>. Of the falsy values, \<open>null\<close>, \<open>0\<close> and \<open>false\<close>
  are turned into the epoch and the others into \<open>Invalid Date\<close>.
\<close>

datatype date_arg = Falsy "timestamp option" | Truthy "timestamp option"

text \<open>The inner \<open>formatDate\<close>: \<open>if (!date) return null\<close> comes before the parse.\<close>

definition formatDate :: "date_arg \<Rightarrow> int option" where
  "formatDate d =
     (case d of
        Falsy v \<Rightarrow> None
      | Truthy None \<Rightarrow> None
      | Truthy (Some t) \<Rightarrow> Some (isoDate t))"

text \<open>\<open>new Date(s)\<close> for a date-only text \<open>s\<close>: the midnight that starts the UTC day.\<close>

definition parseDay :: "int \<Rightarrow> timestamp" where
  "parseDay d = d * msPerDay"

text \<open>
  \<open>getApiDates(dateFrom, dateTo)\<close> in a process of time zone \<open>z\<close>; \<open>today\<close> is the
  value of \<open>new Date()\<close>. The two defaults are \<open>Date\<close> objects, truthy whatever their
  time value.
\<close>

definition getApiDates ::
  "zone \<Rightarrow> timestamp \<Rightarrow> date_arg \<Rightarrow> date_arg \<Rightarrow> int option date_range" where
  "getApiDates z today dateFrom dateTo =
     (let defaultFrom = newDate_Jan1 z (getFullYear z today);
          defaultTo = Some today;
          fromDate = (case formatDate dateFrom of
                        Some s \<Rightarrow> Some s | None \<Rightarrow> formatDate (Truthy defaultFrom));
          toDate = (case formatDate dateTo of
                      Some s \<Rightarrow> Some s | None \<Rightarrow> formatDate (Truthy defaultTo))
      in case (fromDate, toDate) of
           (Some f, Some t) \<Rightarrow>
             if parseDay f > parseDay t
             then \<lparr>DateFrom = toDate, DateTo = fromDate\<rparr>
             else \<lparr>DateFrom = fromDate, DateTo = toDate\<rparr>
         | _ \<Rightarrow> \<lparr>DateFrom = fromDate, DateTo = toDate\<rparr>)"

section \<open>Statistics from the ledger file\<close>

text \<open>
  What \<open>JSON.parse\<close> returns. The numbers of the ledger are counts; the names of
  properties are ASCII texts, each once in an object.
\<close>

datatype json =
    JNull
  | JBool bool
  | JNumber int
  | JString jsstring
  | JArray "json list"
  | JObject "(string \<times> json) list"

text \<open>
  \<open>metadata.json\<close> as \<open>getStats\<close> meets it: not there, there but not readable, or
  readable with a text that parses as JSON (\<open>Some\<close>) or does not (\<open>None\<close>).
\<close>

datatype disk_file = Absent | Unreadable | Content "json option"

text \<open>
  \<open>v.key\<close>: a \<open>TypeError\<close> on \<open>null\<close>, the property of an object (\<open>None\<close> for
  \<open>undefined\<close>), and \<open>undefined\<close> on any other parsed value.
\<close>

definition property :: "json \<Rightarrow> string \<Rightarrow> js_error + json option" where
  "property v key =
     (case v of
        JNull \<Rightarrow> Inl TypeError
      | JObject props \<Rightarrow> Inr (map_of props key)
      | _ \<Rightarrow> Inr None)"

text \<open>\<open>v || d\<close> for an optional parsed value \<open>v\<close>.\<close>

definition falsy :: "json \<Rightarrow> bool" where
  "falsy v = (v = JNull \<or> v = JBool False \<or> v = JNumber 0 \<or> v = JString [])"

definition or_else :: "json option \<Rightarrow> json \<Rightarrow> json" where
  "or_else v d = (case v of None \<Rightarrow> d | Some x \<Rightarrow> if falsy x then d else x)"

record stats = "json counted" +
  last_update :: json

definition no_stats :: stats where
  "no_stats = \<lparr>total_documents = JNumber 0, last_update = JNull\<rparr>"

text \<open>The \<open>try\<close> block of \<open>getStats\<close>, and \<open>getStats\<close> with its \<open>catch\<close>.\<close>

definition getStats_try :: "disk_file \<Rightarrow> js_error + stats" where
  "getStats_try metadataFile =
     (case metadataFile of
        Absent \<Rightarrow> Inr no_stats
      | Unreadable \<Rightarrow> Inl FsError
      | Content None \<Rightarrow> Inl SyntaxError
      | Content (Some metadata) \<Rightarrow>
          (case property metadata ''total_documents'' of
             Inl err \<Rightarrow> Inl err
           | Inr t \<Rightarrow>
               (case property metadata ''processed_at'' of
                  Inl err \<Rightarrow> Inl err
                | Inr p \<Rightarrow>
                    Inr \<lparr>total_documents = or_else t (JNumber 0),
                         last_update = or_else p JNull\<rparr>)))"

definition getStats :: "disk_file \<Rightarrow> stats" where
  "getStats metadataFile =
     (case getStats_try metadataFile of Inl err \<Rightarrow> no_stats | Inr s \<Rightarrow> s)"

section \<open>The command interface\<close>

text \<open>
  The texts of the replies are constants of the program; a thrown error carries its
  message. A line on standard output is a JSON object written by \<open>main\<close> or a line of
  plain text written by \<open>console.log\<close> inside the parser (\<open>console.error\<close> goes to
  standard error and is not recorded).
\<close>

datatype message_text = BrowserInitialized | CookiesLoaded | CookiesLoadError | BrowserClosed

datatype error_text =
    NoCookiesFile | NoSearchParams | NoDates | UnknownCommand string | Thrown string

record 'd reply =
  success :: bool
  data :: "'d option"
  error :: "error_text option"
  message :: "message_text option"

datatype 'd out = Log | Json "'d reply"

text \<open>
  What the browser and the parser do during one invocation: \<open>puppeteer.launch\<close> fails,
  or a later step of \<open>init\<close> fails with the browser already stored, or \<open>init\<close>
  succeeds; \<open>loadCookies\<close> returns its flag; \<open>searchDocuments\<close> and
  \<open>processDateRange\<close> return a value or throw (the latter after some lines of log);
  \<open>getStats\<close> returns; \<open>browser.close()\<close> succeeds or throws.
\<close>

datatype init_result = InitOk | LaunchFails string | SetupFails string

record 'd world =
  init_result :: init_result
  loadCookies_result :: bool
  search_result :: "string + 'd"
  range_logs :: nat
  range_result :: "string + 'd"
  stats_result :: 'd
  close_error :: "string option"

text \<open>The parsed command line: the command and whether each option is truthy.\<close>

record args =
  command :: string
  cookies_file :: bool
  params :: bool
  start_date :: bool
  end_date :: bool

definition succeeded :: "message_text \<Rightarrow> 'd reply" where
  "succeeded m = \<lparr>success = True, data = None, error = None, message = Some m\<rparr>"

definition returned :: "'d \<Rightarrow> 'd reply" where
  "returned d = \<lparr>success = True, data = Some d, error = None, message = None\<rparr>"

definition failed :: "error_text \<Rightarrow> 'd reply" where
  "failed err = \<lparr>success = False, data = None, error = Some err, message = None\<rparr>"

text \<open>
  \<open>parser.init()\<close>: its log lines, whether \<open>parser.browser\<close> is set afterwards, and
  the error it throws.
\<close>

definition init :: "'d world \<Rightarrow> 'd out list \<times> bool \<times> string option" where
  "init w =
     (case init_result w of
        InitOk \<Rightarrow> ([Log, Log], True, None)
      | LaunchFails m \<Rightarrow> ([Log], False, Some m)
      | SetupFails m \<Rightarrow> ([Log], True, Some m))"

definition loadCookies :: "'d world \<Rightarrow> 'd out list" where
  "loadCookies w = (if loadCookies_result w then [Log] else [])"

text \<open>
  \<open>parser = new PuppeteerParser(); await parser.init();\<close> followed by the rest of a
  \<open>case\<close>: the constructor logs one line, and a throw of \<open>init\<close> skips the rest.
\<close>

definition with_browser ::
  "'d world \<Rightarrow> 'd out list \<times> string option \<Rightarrow> 'd out list \<times> bool \<times> string option" where
  "with_browser w rest =
     (case init w of
        (logs, browser, Some m) \<Rightarrow> (Log # logs, browser, Some m)
      | (logs, browser, None) \<Rightarrow> (Log # logs @ fst rest, browser, snd rest))"

text \<open>The \<open>switch\<close> inside the \<open>try\<close> block of \<open>main\<close>.\<close>

definition try_block :: "'d world \<Rightarrow> args \<Rightarrow> 'd out list \<times> bool \<times> string option" where
  "try_block w a =
     (if command a = ''init'' then
        with_browser w ([Json (succeeded BrowserInitialized)], None)
      else if command a = ''loadCookies'' then
        with_browser w
          (if cookies_file a then
             (loadCookies w @
                [Json \<lparr>success = loadCookies_result w, data = None, error = None,
                        message = Some (if loadCookies_result w then CookiesLoaded
                                        else CookiesLoadError)\<rparr>], None)
           else ([Json (failed NoCookiesFile)], None))
      else if command a = ''searchDocuments'' then
        with_browser w
          (let loaded = (if cookies_file a then loadCookies w else [])
           in if params a then
                (case search_result w of
                   Inl m \<Rightarrow> (loaded @ [Log], Some m)
                 | Inr d \<Rightarrow> (loaded @ [Log, Log, Json (returned d)], None))
              else (loaded @ [Json (failed NoSearchParams)], None))
      else if command a = ''processDateRange'' then
        with_browser w
          (let loaded = (if cookies_file a then loadCookies w else [])
           in if start_date a \<and> end_date a then
                (case range_result w of
                   Inl m \<Rightarrow> (loaded @ replicate (range_logs w) Log, Some m)
                 | Inr d \<Rightarrow>
                     (loaded @ replicate (range_logs w) Log @ [Json (returned d)], None))
              else (loaded @ [Json (failed NoDates)], None))
      else if command a = ''getStats'' then
        ([Log, Json (returned (stats_result w))], False, None)
      else if command a = ''close'' then
        ([Log, Json (succeeded BrowserClosed)], False, None)
      else ([Json (failed (UnknownCommand (command a)))], False, None))"

text \<open>
  \<open>main\<close> with its \<open>catch\<close> and \<open>finally\<close>, and the handler of the top-level
  \<open>main().catch\<close>: the lines on standard output and the exit code.
\<close>

definition main :: "'d world \<Rightarrow> args \<Rightarrow> 'd out list \<times> nat" where
  "main w a =
     (case try_block w a of (tried, browser, thrown) \<Rightarrow>
        (let caught = (case thrown of
                         None \<Rightarrow> tried
                       | Some m \<Rightarrow> tried @ [Json (failed (Thrown m))])
         in if browser then
              (case close_error w of
                 None \<Rightarrow> (caught @ [Log], 0)
               | Some m \<Rightarrow> (caught @ [Json (failed (Thrown m))], 1))
            else (caught, 0)))"

fun is_json :: "'d out \<Rightarrow> bool" where
  "is_json Log = False"
| "is_json (Json r) = True"

definition starts_browser :: "string \<Rightarrow> bool" where
  "starts_browser c =
     (c = ''init'' \<or> c = ''loadCookies'' \<or> c = ''searchDocuments'' \<or> c = ''processDateRange'')"

section \<open>Sample environments\<close>

text \<open>
  \<open>toLowerCase\<close> on Basic Latin and on the Russian alphabet, where it maps one code
  unit to one code unit; the concrete runs below use texts of these letters only.
\<close>

definition toLowerCase_ru :: "jsstring \<Rightarrow> jsstring" where
  "toLowerCase_ru s =
     map (\<lambda>c. if 65 \<le> c \<and> c \<le> 90 then c + 32
              else if 1040 \<le> c \<and> c \<le> 1071 then c + 32
              else if c = 1025 then 1105 else c) s"

text \<open>
  The zone of a process that runs in UTC, a zone three hours east of it, and a zone one
  hour east of UTC that moves its clocks forward by an hour at 2024-03-31 01:00 UTC, as
  Central Europe did.
\<close>

definition utc_zone :: zone where
  "utc_zone = (\<lambda>t isUTC. Abs_tz_offset 0)"

definition moscow :: zone where
  "moscow = (\<lambda>t isUTC. Abs_tz_offset 10800000)"

definition berlin :: zone where
  "berlin =
     (\<lambda>t isUTC. if t < (if isUTC then 1711846800000 else 1711854000000)
                then Abs_tz_offset 3600000 else Abs_tz_offset 7200000)"

text \<open>
  A portal that answers every search with status 200 and an empty \<open>data\<close> array, in a
  process that runs in UTC, and the same portal seen from the zone with the clock change.
\<close>

definition empty_portal :: env where
  "empty_portal =
     \<lparr>toLowerCase = toLowerCase_ru,
      portal = (\<lambda>searchParams. Http 200 (Some (Body (Some [])))),
      dateNow = (\<lambda>n. [49, 55, 48, 52, 48, 54, 55, 50, 48, 48, 48, 48] @ [48 + n]),
      downloadPDF = (\<lambda>pdfUrl name. None),
      clock = 0, localTZA = utc_zone\<rparr>"

definition empty_portal_berlin :: env where
  "empty_portal_berlin = empty_portal\<lparr>localTZA := berlin\<rparr>"

text \<open>The state at the start of a run on an empty documents directory.\<close>

definition fresh :: state where
  "fresh = \<lparr>results = [], metadata_file = None, requests = [], downloads = []\<rparr>"

text \<open>A portal with results on pages 1 and 2 of every window and none from page 3 on.\<close>

definition plain_doc :: doc where
  "plain_doc = \<lparr>CaseNumber = Some [65, 49], Title = Some [], Date = None, DocumentUrl = None\<rparr>"

definition three_pages :: env where
  "three_pages =
     \<lparr>toLowerCase = toLowerCase_ru,
      portal = (\<lambda>searchParams. if Page searchParams < 3 then Http 200 (Some (Body (Some [plain_doc])))
                         else Http 200 (Some (Body (Some [])))),
      dateNow = (\<lambda>n. [49, 55, 48, 52, 48, 54, 55, 50, 48, 48, 48, 48] @ [48 + n]),
      downloadPDF = (\<lambda>pdfUrl name. None),
      clock = 0, localTZA = utc_zone\<rparr>"

text \<open>A portal that fails every search with status 503, and one that never answers.\<close>

definition always_503 :: env where
  "always_503 =
     \<lparr>toLowerCase = toLowerCase_ru,
      portal = (\<lambda>searchParams. Http 503 None),
      dateNow = (\<lambda>n. [49, 55, 48, 52, 48, 54, 55, 50, 48, 48, 48, 48] @ [48 + n]),
      downloadPDF = (\<lambda>pdfUrl name. None),
      clock = 0, localTZA = utc_zone\<rparr>"

definition timing_out :: env where
  "timing_out =
     \<lparr>toLowerCase = toLowerCase_ru,
      portal = (\<lambda>searchParams. Timeout),
      dateNow = (\<lambda>n. [49, 55, 48, 52, 48, 54, 55, 50, 48, 48, 48, 48] @ [48 + n]),
      downloadPDF = (\<lambda>pdfUrl name. None),
      clock = 0, localTZA = utc_zone\<rparr>"

text \<open>
  A portal that holds one decision, case A1 titled \<open>Reshenie\<close> (in Cyrillic) and dated
  2024-01-03 (day 19725), and lists it on page 1 of every window whose dates include that
  day. Downloads succeed and write to the directory \<open>docs\<close>; the clock of the file names
  starts at 1704067200000 and advances by one with every download.
\<close>

definition decision_doc :: doc where
  "decision_doc =
     \<lparr>CaseNumber = Some [65, 49],
      Title = Some [1056, 1077, 1096, 1077, 1085, 1080, 1077],
      Date = Some [50, 48, 50, 52, 45, 48, 49, 45, 48, 51],
      DocumentUrl = Some [47, 100, 47, 49]\<rparr>"

definition decision_entry :: "nat \<Rightarrow> entry" where
  "decision_entry n =
     \<lparr>caseNumber = Some [65, 49],
      title = Some [1056, 1077, 1096, 1077, 1085, 1080, 1077],
      date = Some [50, 48, 50, 52, 45, 48, 49, 45, 48, 51],
      url = [47, 100, 47, 49],
      filepath = [100, 111, 99, 115, 47, 65, 49, 95, 49, 55, 48, 52, 48, 54, 55, 50, 48, 48,
                  48, 48, 48 + n, 46, 112, 100, 102]\<rparr>"

definition boundary_portal :: env where
  "boundary_portal =
     \<lparr>toLowerCase = toLowerCase_ru,
      portal = (\<lambda>searchParams.
         if Page searchParams = 1 \<and> DateFrom searchParams \<le> 19725
            \<and> 19725 \<le> DateTo searchParams
         then Http 200 (Some (Body (Some [decision_doc])))
         else Http 200 (Some (Body (Some [])))),
      dateNow = (\<lambda>n. [49, 55, 48, 52, 48, 54, 55, 50, 48, 48, 48, 48] @ [48 + n]),
      downloadPDF = (\<lambda>pdfUrl name. Some ([100, 111, 99, 115, 47] @ name)),
      clock = 1704412800000, localTZA = utc_zone\<rparr>"

text \<open>
  Results for the classifier: a decision without a document URL, the decision
  \<open>Reshenie po delu No123\<close>, a title with both \<open>perenos\<close> and \<open>reshenie\<close>, and a
  title with no keyword at all.
\<close>

definition no_url_doc :: doc where
  "no_url_doc =
     \<lparr>CaseNumber = Some [65, 49],
      Title = Some [1056, 1077, 1096, 1077, 1085, 1080, 1077],
      Date = None, DocumentUrl = None\<rparr>"

definition case123_doc :: doc where
  "case123_doc =
     \<lparr>CaseNumber = None,
      Title = Some [1056, 1077, 1096, 1077, 1085, 1080, 1077, 32, 1087, 1086, 32,
                    1076, 1077, 1083, 1091, 32, 8470, 49, 50, 51],
      Date = None, DocumentUrl = Some [47, 100, 47, 50]\<rparr>"

definition postponed_doc :: doc where
  "postponed_doc =
     \<lparr>CaseNumber = None,
      Title = Some [1055, 1077, 1088, 1077, 1085, 1086, 1089, 46, 32,
                    1056, 1077, 1096, 1077, 1085, 1080, 1077],
      Date = None, DocumentUrl = Some [47, 100, 47, 51]\<rparr>"

definition hearing_doc :: doc where
  "hearing_doc =
     \<lparr>CaseNumber = Some [65, 50], Title = Some [72, 101, 97, 114, 105, 110, 103],
      Date = None, DocumentUrl = Some [47, 100, 47, 52]\<rparr>"

text \<open>A browser that does everything asked of it, and the command \<open>init\<close>.\<close>

definition calm :: "nat world" where
  "calm =
     \<lparr>init_result = InitOk, loadCookies_result = True, search_result = Inr 0,
      range_logs = 3, range_result = Inr 0, stats_result = 0, close_error = None\<rparr>"

definition init_args :: args where
  "init_args =
     \<lparr>command = ''init'', cookies_file = False, params = False, start_date = False,
      end_date = False\<rparr>"

section \<open>Dates\<close>

lemma Rep_utc_zone: "Rep_tz_offset (utc_zone t u) = 0"
  by (simp add: utc_zone_def Abs_tz_offset_inverse msPerDay_def)

lemma Rep_moscow: "Rep_tz_offset (moscow t u) = 10800000"
  by (simp add: moscow_def Abs_tz_offset_inverse msPerDay_def)

lemma Rep_berlin:
  "Rep_tz_offset (berlin t u)
   = (if t < (if u then 1711846800000 else 1711854000000) then 3600000 else 7200000)"
  by (simp add: berlin_def Abs_tz_offset_inverse msPerDay_def)

lemma isoDate_plus: "isoDate (t + n * msPerDay) = isoDate t + n"
  by (simp add: isoDate_def msPerDay_def)

text \<open>In a zone whose offset never changes, \<open>setDate\<close> moves a date by whole days.\<close>

lemma setDate_plus_fixed:
  assumes "\<forall>t u. Rep_tz_offset (z t u) = c"
    and "- maxTime \<le> t + n * msPerDay" and "t + n * msPerDay \<le> maxTime"
  shows "setDate_plus z t n = Some (t + n * msPerDay)"
  using assms by (simp add: setDate_plus_def UTC_def LocalTime_def timeClip_def)

lemma setDate_plus_utc:
  "- maxTime \<le> t + n * msPerDay \<Longrightarrow> t + n * msPerDay \<le> maxTime \<Longrightarrow>
   setDate_plus utc_zone t n = Some (t + n * msPerDay)"
  by (rule setDate_plus_fixed[where c = 0]) (simp_all add: Rep_utc_zone)

lemmas utc_step =
  setDate_plus_def UTC_def LocalTime_def timeClip_def maxTime_def Rep_utc_zone

text \<open>In every zone the next date is later than the current one, by less than four days.\<close>

lemma setDate_plus_later:
  assumes "setDate_plus z t 2 = Some nextDate"
  shows "t < nextDate \<and> nextDate < t + 4 * msPerDay"
  using assms Rep_tz_offset[of "z t True"]
    Rep_tz_offset[of "z (LocalTime z t + 2 * msPerDay) False"]
  by (auto simp: setDate_plus_def timeClip_def UTC_def LocalTime_def msPerDay_def
           split: if_splits)

lemma windows_closed:
  "\<forall>t u. Rep_tz_offset (z t u) = c \<Longrightarrow> currentDate \<le> endDateObj \<Longrightarrow>
   - maxTime \<le> currentDate \<Longrightarrow> endDateObj + 2 * msPerDay \<le> maxTime \<Longrightarrow>
   windows z endDateObj currentDate =
     map (\<lambda>i. (isoDate currentDate + 2 * int i, isoDate currentDate + 2 * int i + 2))
       [0..<Suc (nat ((endDateObj - currentDate) div (2 * msPerDay)))]"
proof (induction z endDateObj currentDate rule: windows.induct)
  case (1 z endDateObj currentDate)
  let ?next = "currentDate + 2 * msPerDay"
  have lo: "- maxTime \<le> ?next"
    using 1(4) by (simp add: msPerDay_def)
  have s: "setDate_plus z currentDate 2 = Some ?next"
    using 1(2) lo 1(3) 1(5) by (intro setDate_plus_fixed) simp_all
  have i: "isoDate ?next = isoDate currentDate + 2"
    using isoDate_plus[of currentDate 2] by simp
  show ?case
  proof (cases "?next \<le> endDateObj")
    case False
    then have "(endDateObj - currentDate) div (2 * msPerDay) = 0"
      using 1(3) by (simp add: msPerDay_def)
    moreover have "windows z endDateObj ?next = []"
      using False by (subst windows.simps) simp
    ultimately show ?thesis
      using 1(3) by (subst windows.simps) (simp add: s i)
  next
    case True
    have d: "(endDateObj - currentDate) div (2 * msPerDay)
             = (endDateObj - ?next) div (2 * msPerDay) + 1"
      by (simp add: msPerDay_def)
    have nn: "0 \<le> (endDateObj - ?next) div (2 * msPerDay)"
      using True by (simp add: msPerDay_def)
    have n: "nat ((endDateObj - currentDate) div (2 * msPerDay))
             = Suc (nat ((endDateObj - ?next) div (2 * msPerDay)))"
      using nn d by simp
    have "windows z endDateObj currentDate =
            (isoDate currentDate, isoDate currentDate + 2) # windows z endDateObj ?next"
      using 1(3) by (subst windows.simps) (simp add: s i)
    also have "windows z endDateObj ?next =
            map (\<lambda>i. (isoDate currentDate + 2 * int (Suc i),
                        isoDate currentDate + 2 * int (Suc i) + 2))
              [0..<Suc (nat ((endDateObj - ?next) div (2 * msPerDay)))]"
      using 1(1)[OF 1(3) s 1(2) True lo 1(5)] by (simp add: i)
    finally show ?thesis
      by (simp only: n map_upt_Suc [where n = "Suc _"]) simp
  qed
qed

text \<open>Under the same conditions no \<open>nextDate\<close> leaves the range of \<open>Date\<close>.\<close>

lemma windows_loop_completes:
  "\<forall>t u. Rep_tz_offset (localTZA e t u) = c \<Longrightarrow>
   - maxTime \<le> currentDate \<Longrightarrow> endDateObj + 2 * msPerDay \<le> maxTime \<Longrightarrow>
   fst (windows_loop e maxPages endDateObj currentDate st) = None"
proof (induction e maxPages endDateObj currentDate st rule: windows_loop.induct)
  case (1 e maxPages endDateObj currentDate st)
  show ?case
  proof (cases "currentDate \<le> endDateObj")
    case False
    then show ?thesis
      by (subst windows_loop.simps) simp
  next
    case True
    let ?next = "currentDate + 2 * msPerDay"
    have lo: "- maxTime \<le> ?next"
      using 1(3) by (simp add: msPerDay_def)
    have s: "setDate_plus (localTZA e) currentDate 2 = Some ?next"
      using 1(2) lo True 1(4) by (intro setDate_plus_fixed) simp_all
    show ?thesis
      using 1(1)[OF True s 1(2) lo 1(4)] True
      by (subst windows_loop.simps) (simp add: s)
  qed
qed

text \<open>A \<open>nextDate\<close> outside the range of \<open>Date\<close> ends the run with a \<open>RangeError\<close>.\<close>

lemma windows_loop_overflow:
  "currentDate \<le> endDateObj \<Longrightarrow> setDate_plus (localTZA e) currentDate 2 = None \<Longrightarrow>
   windows_loop e maxPages endDateObj currentDate st = (Some RangeError, st)"
  by (subst windows_loop.simps) simp

section \<open>What a run leaves untouched, and the shape of its requests\<close>

lemma process_doc_requests: "requests (process_doc e st d) = requests st"
  by (simp add: process_doc_def Let_def split: option.splits)

lemma process_doc_metadata: "metadata_file (process_doc e st d) = metadata_file st"
  by (simp add: process_doc_def Let_def split: option.splits)

lemma process_docs_requests: "requests (process_docs e st ds) = requests st"
  unfolding process_docs_def
  by (induction ds arbitrary: st) (simp_all add: process_doc_requests)

lemma process_docs_metadata: "metadata_file (process_docs e st ds) = metadata_file st"
  unfolding process_docs_def
  by (induction ds arbitrary: st) (simp_all add: process_doc_metadata)

lemma pages_loop_metadata:
  "metadata_file (snd (pages_loop e maxPages sp page st)) = metadata_file st"
proof (induction e maxPages sp page st rule: pages_loop.induct)
  case (1 e maxPages searchParams page st)
  show ?case
    using 1
    by (subst pages_loop.simps)
       (auto simp: Let_def process_docs_metadata split: sum.splits)
qed

lemma process_window_metadata:
  "metadata_file (process_window e maxPages currentDate nextDate st) = metadata_file st"
  by (simp add: process_window_def pages_loop_metadata)

lemma windows_loop_metadata:
  "metadata_file (snd (windows_loop e maxPages endDateObj currentDate st)) = metadata_file st"
proof (induction e maxPages endDateObj currentDate st rule: windows_loop.induct)
  case (1 e maxPages endDateObj currentDate st)
  show ?case
    using 1
    by (subst windows_loop.simps) (simp add: process_window_metadata split: option.splits)
qed

lemma processDateRange_metadata:
  "metadata_file (snd (processDateRange e startDate endDate maxPages disk))
   = (case fst (processDateRange e startDate endDate maxPages disk) of
        None \<Rightarrow>
          Some \<lparr>total_documents =
                  length (results (snd (processDateRange e startDate endDate maxPages disk))),
                processed_at = clock e,
                documents = results (snd (processDateRange e startDate endDate maxPages disk))\<rparr>
      | Some err \<Rightarrow> disk)"
proof (cases "\<exists>currentDate endDateObj. startDate = Some currentDate \<and> endDate = Some endDateObj")
  case False
  then show ?thesis
    by (cases startDate; cases endDate)
       (simp_all add: processDateRange_def write_metadata_def)
next
  case True
  then obtain currentDate endDateObj
    where d: "startDate = Some currentDate" "endDate = Some endDateObj"
    by auto
  let ?st0 = "\<lparr>results = [], metadata_file = disk, requests = [], downloads = []\<rparr>"
  obtain r st where w: "windows_loop e maxPages endDateObj currentDate ?st0 = (r, st)"
    by (cases "windows_loop e maxPages endDateObj currentDate ?st0") auto
  have m: "metadata_file st = disk"
    using windows_loop_metadata[of e maxPages endDateObj currentDate ?st0] by (simp add: w)
  show ?thesis
    by (cases r) (simp_all add: processDateRange_def d w write_metadata_def m)
qed

lemma pages_loop_requests:
  "\<exists>k. page - 1 \<le> k \<and> (page \<le> maxPages \<longrightarrow> page \<le> k) \<and>
       requests (snd (pages_loop e maxPages sp page st))
         = requests st @ map (\<lambda>q. sp\<lparr>Page := q\<rparr>) [page..k]"
proof (induction e maxPages sp page st rule: pages_loop.induct)
  case (1 e maxPages searchParams page st)
  show ?case
  proof (cases "page \<le> maxPages")
    case False
    then show ?thesis
      by (subst pages_loop.simps) (auto intro: exI[of _ "page - 1"])
  next
    case le: True
    let ?sp = "searchParams\<lparr>Page := page\<rparr>"
    let ?st1 = "st\<lparr>requests := requests st @ [?sp]\<rparr>"
    show ?thesis
    proof (cases "searchDocuments e ?sp")
      case (Inl err)
      then show ?thesis
        using le by (subst pages_loop.simps) (auto simp: Let_def intro!: exI[of _ page])
    next
      case (Inr response)
      show ?thesis
      proof (cases "page_empty response")
        case True
        then show ?thesis
          using le Inr by (subst pages_loop.simps) (auto simp: Let_def intro!: exI[of _ page])
      next
        case False
        from 1[OF le refl refl Inr False]
        obtain k where k: "page \<le> k"
          "requests (snd (pages_loop e maxPages ?sp (page + 1)
              (process_docs e ?st1 (page_data response))))
           = requests (process_docs e ?st1 (page_data response))
               @ map (\<lambda>q. ?sp\<lparr>Page := q\<rparr>) [page + 1..k]"
          by auto
        have "[page..k] = page # [page + 1..k]"
          using k(1) by (simp add: upto_rec1)
        then show ?thesis
          using le Inr False k
          by (subst pages_loop.simps)
             (auto simp: Let_def process_docs_requests intro!: exI[of _ k])
      qed
    qed
  qed
qed

lemma filter_later_pages:
  "filter (\<lambda>r. Page r = 1) (map (\<lambda>q. sp\<lparr>Page := q\<rparr>) [2..k]) = []"
  by (auto simp: filter_empty_conv)

lemma process_window_first_page:
  assumes "1 \<le> maxPages"
  shows "filter (\<lambda>r. Page r = 1) (requests (process_window e maxPages currentDate nextDate st))
         = filter (\<lambda>r. Page r = 1) (requests st) @ [window_params currentDate nextDate]"
proof -
  obtain k where k: "1 \<le> k"
    "requests (snd (pages_loop e maxPages (window_params currentDate nextDate) 1 st))
       = requests st @ map (\<lambda>q. (window_params currentDate nextDate)\<lparr>Page := q\<rparr>) [1..k]"
    using pages_loop_requests[of 1 maxPages e "window_params currentDate nextDate" st] assms by auto
  have "[1..k] = 1 # [2..k]"
    using k(1) by (simp add: upto_rec1)
  then show ?thesis
    using k(2) filter_later_pages[of "window_params currentDate nextDate" k]
    by (simp add: process_window_def window_params_def)
qed

lemma windows_loop_first_pages:
  "1 \<le> maxPages \<Longrightarrow>
   map (\<lambda>r. (DateFrom r, DateTo r))
     (filter (\<lambda>r. Page r = 1)
       (requests (snd (windows_loop e maxPages endDateObj currentDate st))))
   = map (\<lambda>r. (DateFrom r, DateTo r)) (filter (\<lambda>r. Page r = 1) (requests st))
       @ windows (localTZA e) endDateObj currentDate"
proof (induction e maxPages endDateObj currentDate st rule: windows_loop.induct)
  case (1 e maxPages endDateObj currentDate st)
  show ?case
  proof (cases "currentDate \<le> endDateObj")
    case False
    then show ?thesis
      by (subst windows_loop.simps, subst windows.simps) simp
  next
    case True
    show ?thesis
    proof (cases "setDate_plus (localTZA e) currentDate 2")
      case None
      then show ?thesis
        using True by (subst windows_loop.simps, subst windows.simps) simp
    next
      case (Some nextDate)
      then show ?thesis
        using 1(1)[OF True Some 1(2)] True 1(2)
        by (subst windows_loop.simps, subst windows.simps)
           (simp add: process_window_first_page window_params_def)
    qed
  qed
qed

lemma last_window_bounds:
  assumes "\<forall>t u. Rep_tz_offset (z t u) = c" and "currentDate \<le> endDateObj"
    and "- maxTime \<le> currentDate" and "endDateObj + 2 * msPerDay \<le> maxTime"
  shows "isoDate endDateObj \<le> snd (last (windows z endDateObj currentDate))"
    and "snd (last (windows z endDateObj currentDate)) \<le> isoDate endDateObj + 2"
    and "currentDate mod msPerDay = 0 \<Longrightarrow>
           isoDate endDateObj < snd (last (windows z endDateObj currentDate))"
proof -
  define n where "n = (endDateObj - currentDate) div (2 * msPerDay)"
  have n0: "0 \<le> n" using assms(2) by (simp add: n_def msPerDay_def)
  have lo: "2 * msPerDay * n \<le> endDateObj - currentDate"
    unfolding n_def by (simp add: msPerDay_def)
  have "(endDateObj - currentDate) mod 172800000 < 172800000"
    by simp
  moreover have "endDateObj - currentDate
      = 172800000 * ((endDateObj - currentDate) div 172800000)
        + (endDateObj - currentDate) mod 172800000"
    by (simp only: mult_div_mod_eq)
  ultimately have "endDateObj - currentDate
      < 172800000 * ((endDateObj - currentDate) div 172800000) + 172800000"
    by linarith
  then have hi: "endDateObj - currentDate < 2 * msPerDay * n + 2 * msPerDay"
    unfolding n_def msPerDay_def by simp
  have l: "snd (last (windows z endDateObj currentDate)) = isoDate currentDate + 2 * n + 2"
    using n0 by (simp add: windows_closed[OF assms] n_def[symmetric])
  have a: "isoDate (currentDate + msPerDay * (2 * n)) = isoDate currentDate + 2 * n" for n
    by (simp add: isoDate_def msPerDay_def)
  have "isoDate endDateObj \<le> isoDate (currentDate + msPerDay * (2 * (n + 1)))"
    unfolding isoDate_def using hi by (intro zdiv_mono1) (simp_all add: msPerDay_def)
  then show "isoDate endDateObj \<le> snd (last (windows z endDateObj currentDate))"
    by (simp only: a l) simp
  have "isoDate (currentDate + msPerDay * (2 * n)) \<le> isoDate endDateObj"
    unfolding isoDate_def using lo by (intro zdiv_mono1) (simp_all add: msPerDay_def)
  then show "snd (last (windows z endDateObj currentDate)) \<le> isoDate endDateObj + 2"
    by (simp only: a l)
  assume m: "currentDate mod msPerDay = 0"
  have "endDateObj < msPerDay * (isoDate currentDate + 2 * n + 2)"
    using hi m div_mult_mod_eq[of currentDate msPerDay]
    by (simp add: isoDate_def algebra_simps)
  then have "isoDate endDateObj < isoDate currentDate + 2 * n + 2"
    unfolding isoDate_def[of endDateObj]
    by (simp add: div_less_iff_less_mult msPerDay_def algebra_simps)
  then show "isoDate endDateObj < snd (last (windows z endDateObj currentDate))"
    by (simp only: l)
qed

lemma pages_loop_throw:
  assumes "page \<le> maxPages" "searchDocuments e (sp\<lparr>Page := page\<rparr>) = Inl err"
  shows "pages_loop e maxPages sp page st
         = (Some err, st\<lparr>requests := requests st @ [sp\<lparr>Page := page\<rparr>]\<rparr>)"
  using assms by (subst pages_loop.simps) (simp add: Let_def)

lemma pages_loop_empty:
  assumes "page \<le> maxPages" "searchDocuments e (sp\<lparr>Page := page\<rparr>) = Inr r" "page_empty r"
  shows "pages_loop e maxPages sp page st
         = (None, st\<lparr>requests := requests st @ [sp\<lparr>Page := page\<rparr>]\<rparr>)"
  using assms by (subst pages_loop.simps) (simp add: Let_def)

lemma pages_loop_stop:
  "page \<le> k \<Longrightarrow> k \<le> maxPages \<Longrightarrow>
   (\<forall>q. page \<le> q \<and> q < k \<longrightarrow>
      (\<exists>r. searchDocuments e (sp\<lparr>Page := q\<rparr>) = Inr r \<and> \<not> page_empty r)) \<Longrightarrow>
   (\<exists>r. searchDocuments e (sp\<lparr>Page := k\<rparr>) = Inr r \<and> page_empty r) \<Longrightarrow>
   requests (snd (pages_loop e maxPages sp page st))
     = requests st @ map (\<lambda>q. sp\<lparr>Page := q\<rparr>) [page..k]"
proof (induction e maxPages sp page st rule: pages_loop.induct)
  case (1 e maxPages searchParams page st)
  let ?sp = "searchParams\<lparr>Page := page\<rparr>"
  let ?st1 = "st\<lparr>requests := requests st @ [?sp]\<rparr>"
  have le: "page \<le> maxPages" using 1(2,3) by simp
  show ?case
  proof (cases "page = k")
    case True
    then obtain r where "searchDocuments e ?sp = Inr r" "page_empty r"
      using 1(5) by auto
    then show ?thesis
      using le True by (simp add: pages_loop_empty)
  next
    case False
    then have lt: "page < k" using 1(2) by simp
    then obtain r where r: "searchDocuments e ?sp = Inr r" "\<not> page_empty r"
      using 1(4) by auto
    have "requests (snd (pages_loop e maxPages ?sp (page + 1)
              (process_docs e ?st1 (page_data r))))
          = requests (process_docs e ?st1 (page_data r))
              @ map (\<lambda>q. ?sp\<lparr>Page := q\<rparr>) [page + 1..k]"
      using 1(1)[OF le refl refl r] lt 1(3,4,5) by simp
    moreover have "[page..k] = page # [page + 1..k]"
      using lt by (simp add: upto_rec1)
    ultimately show ?thesis
      using le r by (subst pages_loop.simps) (simp add: Let_def process_docs_requests)
  qed
qed

lemma pages_loop_cap:
  "(\<forall>q. page \<le> q \<and> q \<le> maxPages \<longrightarrow>
      (\<exists>r. searchDocuments e (sp\<lparr>Page := q\<rparr>) = Inr r \<and> \<not> page_empty r)) \<Longrightarrow>
   requests (snd (pages_loop e maxPages sp page st))
     = requests st @ map (\<lambda>q. sp\<lparr>Page := q\<rparr>) [page..maxPages]"
proof (induction e maxPages sp page st rule: pages_loop.induct)
  case (1 e maxPages searchParams page st)
  let ?sp = "searchParams\<lparr>Page := page\<rparr>"
  let ?st1 = "st\<lparr>requests := requests st @ [?sp]\<rparr>"
  show ?case
  proof (cases "page \<le> maxPages")
    case False
    then show ?thesis
      by (subst pages_loop.simps) simp
  next
    case le: True
    then obtain r where r: "searchDocuments e ?sp = Inr r" "\<not> page_empty r"
      using 1(2) by auto
    have "requests (snd (pages_loop e maxPages ?sp (page + 1)
              (process_docs e ?st1 (page_data r))))
          = requests (process_docs e ?st1 (page_data r))
              @ map (\<lambda>q. ?sp\<lparr>Page := q\<rparr>) [page + 1..maxPages]"
      using 1(1)[OF le refl refl r] 1(2) by simp
    moreover have "[page..maxPages] = page # [page + 1..maxPages]"
      using le by (simp add: upto_rec1)
    ultimately show ?thesis
      using le r by (subst pages_loop.simps) (simp add: Let_def process_docs_requests)
  qed
qed

lemma pages_loop_pages:
  "\<exists>k. page - 1 \<le> k \<and> (page \<le> maxPages \<longrightarrow> page \<le> k \<and> k \<le> maxPages)
       \<and> (\<not> page \<le> maxPages \<longrightarrow> k = page - 1)
       \<and> (\<forall>q. page \<le> q \<and> q < k \<longrightarrow>
             (\<exists>r. searchDocuments e (sp\<lparr>Page := q\<rparr>) = Inr r \<and> \<not> page_empty r))
       \<and> requests (snd (pages_loop e maxPages sp page st))
           = requests st @ map (\<lambda>q. sp\<lparr>Page := q\<rparr>) [page..k]"
proof (induction e maxPages sp page st rule: pages_loop.induct)
  case (1 e maxPages searchParams page st)
  show ?case
  proof (cases "page \<le> maxPages")
    case False
    then show ?thesis
      by (subst pages_loop.simps) (auto intro: exI[of _ "page - 1"])
  next
    case le: True
    let ?sp = "searchParams\<lparr>Page := page\<rparr>"
    let ?st1 = "st\<lparr>requests := requests st @ [?sp]\<rparr>"
    show ?thesis
    proof (cases "searchDocuments e ?sp")
      case (Inl err)
      then show ?thesis
        using le by (subst pages_loop.simps) (auto simp: Let_def intro!: exI[of _ page])
    next
      case (Inr response)
      show ?thesis
      proof (cases "page_empty response")
        case True
        then show ?thesis
          using le Inr by (subst pages_loop.simps) (auto simp: Let_def intro!: exI[of _ page])
      next
        case False
        from 1[OF le refl refl Inr False]
        obtain k where k: "page \<le> k" "page + 1 \<le> maxPages \<longrightarrow> k \<le> maxPages"
          "\<not> page + 1 \<le> maxPages \<longrightarrow> k = page"
          "\<forall>q. page + 1 \<le> q \<and> q < k \<longrightarrow>
             (\<exists>r. searchDocuments e (searchParams\<lparr>Page := q\<rparr>) = Inr r \<and> \<not> page_empty r)"
          "requests (snd (pages_loop e maxPages ?sp (page + 1)
              (process_docs e ?st1 (page_data response))))
           = requests (process_docs e ?st1 (page_data response))
               @ map (\<lambda>q. ?sp\<lparr>Page := q\<rparr>) [page + 1..k]"
          by auto
        have km: "k \<le> maxPages"
          using k(1,2,3) le by (cases "page + 1 \<le> maxPages") auto
        have all: "\<forall>q. page \<le> q \<and> q < k \<longrightarrow>
             (\<exists>r. searchDocuments e (searchParams\<lparr>Page := q\<rparr>) = Inr r \<and> \<not> page_empty r)"
        proof (intro allI impI)
          fix q assume q: "page \<le> q \<and> q < k"
          show "\<exists>r. searchDocuments e (searchParams\<lparr>Page := q\<rparr>) = Inr r \<and> \<not> page_empty r"
          proof (cases "q = page")
            case True
            then show ?thesis using Inr False by auto
          next
            case False
            then show ?thesis using q k(4) by auto
          qed
        qed
        have "[page..k] = page # [page + 1..k]"
          using k(1) by (simp add: upto_rec1)
        then show ?thesis
          using le Inr False k(1,5) km all
          by (subst pages_loop.simps)
             (auto simp: Let_def process_docs_requests intro!: exI[of _ k])
      qed
    qed
  qed
qed

lemma window_params_page:
  "(window_params currentDate nextDate)\<lparr>Page := j\<rparr> \<in> (\<lambda>q. (window_params currentDate nextDate)\<lparr>Page := q\<rparr>) ` S
   \<longleftrightarrow> j \<in> S"
  by (auto simp: window_params_def)

lemma windows_loop_step:
  "currentDate \<le> endDateObj \<Longrightarrow> setDate_plus (localTZA e) currentDate 2 = Some nextDate \<Longrightarrow>
   windows_loop e maxPages endDateObj currentDate st
   = windows_loop e maxPages endDateObj nextDate
       (process_window e maxPages currentDate nextDate st)"
  by (subst windows_loop.simps) simp

section \<open>The classifier and the sample runs\<close>

lemma startsWith_iff: "startsWith t k \<longleftrightarrow> (\<exists>b. t = k @ b)"
  by (induction t k rule: startsWith.induct) auto

lemma includes_text_iff: "includes_text t k \<longleftrightarrow> (\<exists>a b. t = a @ k @ b)"
proof (induction t)
  case Nil
  then show ?case by auto
next
  case (Cons c t)
  have "(\<exists>a b. c # t = a @ k @ b)
        \<longleftrightarrow> (\<exists>b. c # t = k @ b) \<or> (\<exists>a b. t = a @ k @ b)"
  proof
    assume "\<exists>a b. c # t = a @ k @ b"
    then obtain a b where ab: "c # t = a @ k @ b" by blast
    show "(\<exists>b. c # t = k @ b) \<or> (\<exists>a b. t = a @ k @ b)"
    proof (cases a)
      case Nil
      then show ?thesis using ab by auto
    next
      case (Cons x a')
      then have "t = a' @ k @ b" using ab by simp
      then show ?thesis by blast
    qed
  next
    assume "(\<exists>b. c # t = k @ b) \<or> (\<exists>a b. t = a @ k @ b)"
    then show "\<exists>a b. c # t = a @ k @ b"
    proof
      assume "\<exists>b. c # t = k @ b"
      then obtain b where "c # t = [] @ k @ b" by auto
      then show ?thesis by blast
    next
      assume "\<exists>a b. t = a @ k @ b"
      then obtain a b where "c # t = (c # a) @ k @ b" by auto
      then show ?thesis by blast
    qed
  qed
  then show ?case
    using Cons by (simp add: startsWith_iff)
qed

lemma shouldExclude_iff:
  "shouldExclude txt \<longleftrightarrow> (\<exists>k \<in> set excludeKeywords. \<exists>a b. txt = a @ k @ b)"
  by (simp add: shouldExclude_def list_ex_iff includes_text_iff)

lemma shouldInclude_iff:
  "shouldInclude txt \<longleftrightarrow> (\<exists>k \<in> set includeKeywords. \<exists>a b. txt = a @ k @ b)"
  by (simp add: shouldInclude_def list_ex_iff includes_text_iff)

lemma process_doc_harvested:
  "harvested e st d u fp \<Longrightarrow>
   process_doc e st d
   = st\<lparr>downloads := downloads st @ [u],
        results := results st @
          [\<lparr>caseNumber = CaseNumber d, title = Title d, date = Date d,
            url = u, filepath = fp\<rparr>]\<rparr>"
  by (simp add: harvested_def process_doc_def Let_def truthy_def orEmpty_def)

lemma texts:
  "shouldInclude (doc_text boundary_portal case123_doc)"
  "\<not> shouldExclude (doc_text boundary_portal case123_doc)"
  "shouldExclude (doc_text boundary_portal postponed_doc)"
  "shouldInclude (doc_text boundary_portal postponed_doc)"
  "\<not> shouldInclude (doc_text boundary_portal hearing_doc)"
  "\<not> shouldExclude (doc_text boundary_portal hearing_doc)"
  "shouldInclude (doc_text boundary_portal no_url_doc)"
  "\<not> shouldExclude (doc_text boundary_portal no_url_doc)"
  by (simp_all add: doc_text_def boundary_portal_def toLowerCase_ru_def case123_doc_def
        postponed_doc_def hearing_doc_def no_url_doc_def orEmpty_def shouldExclude_def
        shouldInclude_def excludeKeywords_def includeKeywords_def)

lemma harvested_decision_doc:
  "harvested boundary_portal fresh decision_doc [47, 100, 47, 49] (filepath (decision_entry 0))"
  "harvested boundary_portal (process_doc boundary_portal fresh decision_doc) decision_doc
     [47, 100, 47, 49] (filepath (decision_entry 1))"
  by (simp_all add: harvested_def filename_def process_doc_def doc_text_def shouldExclude_def
      shouldInclude_def excludeKeywords_def includeKeywords_def decision_doc_def
      toLowerCase_ru_def orEmpty_def truthy_def boundary_portal_def fresh_def
      decision_entry_def Let_def)

lemma boundary_first_window:
  "process_window boundary_portal 40 (19723 * msPerDay) (19725 * msPerDay) fresh
   = \<lparr>results = [\<lparr>caseNumber = Some [65, 49],
                   title = Some [1056, 1077, 1096, 1077, 1085, 1080, 1077],
                   date = Some [50, 48, 50, 52, 45, 48, 49, 45, 48, 51],
                   url = [47, 100, 47, 49],
                   filepath = [100, 111, 99, 115, 47, 65, 49, 95, 49, 55, 48, 52, 48, 54,
                               55, 50, 48, 48, 48, 48, 48, 46, 112, 100, 102]\<rparr>],
      metadata_file = None,
      requests = [\<lparr>DateFrom = 19723, DateTo = 19725, Page = 1, Count = 25\<rparr>,
                  \<lparr>DateFrom = 19723, DateTo = 19725, Page = 2, Count = 25\<rparr>],
      downloads = [[47, 100, 47, 49]]\<rparr>"
  by (simp add: process_window_def pages_loop.simps window_params_def searchDocuments_def
      boundary_portal_def ok_def isoDate_def utc_step msPerDay_def fresh_def
      process_docs_def process_doc_def filename_def doc_text_def shouldExclude_def
      shouldInclude_def
      excludeKeywords_def includeKeywords_def decision_doc_def toLowerCase_ru_def
      orEmpty_def truthy_def Let_def)

lemma boundary_run:
  "processDateRange boundary_portal (Some (19723 * msPerDay)) (Some (19725 * msPerDay)) 40 None
   = (None,
      \<lparr>results = [decision_entry 0, decision_entry 1],
       metadata_file = Some \<lparr>total_documents = 2, processed_at = 1704412800000,
                             documents = [decision_entry 0, decision_entry 1]\<rparr>,
       requests = [\<lparr>DateFrom = 19723, DateTo = 19725, Page = 1, Count = 25\<rparr>,
                   \<lparr>DateFrom = 19723, DateTo = 19725, Page = 2, Count = 25\<rparr>,
                   \<lparr>DateFrom = 19725, DateTo = 19727, Page = 1, Count = 25\<rparr>,
                   \<lparr>DateFrom = 19725, DateTo = 19727, Page = 2, Count = 25\<rparr>],
       downloads = [[47, 100, 47, 49], [47, 100, 47, 49]]\<rparr>)"
  by (simp add: processDateRange_def windows_loop.simps write_metadata_def
      process_window_def pages_loop.simps window_params_def searchDocuments_def
      boundary_portal_def ok_def isoDate_def utc_step msPerDay_def
      process_docs_def process_doc_def filename_def doc_text_def shouldExclude_def
      shouldInclude_def
      excludeKeywords_def includeKeywords_def decision_doc_def toLowerCase_ru_def
      orEmpty_def truthy_def Let_def decision_entry_def)

text \<open>
  The same portal seen from Central Europe: across the clock change of 2024-03-31 the
  step of two local days is 47 hours, and the run over 2024-03-30..2024-04-02 (days
  19812..19815) asks for the windows 03-30..03-31 and 03-31..04-02.
\<close>

lemma berlin_run:
  "processDateRange empty_portal_berlin (Some (19812 * msPerDay)) (Some (19815 * msPerDay))
     40 None
   = (None,
      \<lparr>results = [],
       metadata_file = Some \<lparr>total_documents = 0, processed_at = 0, documents = []\<rparr>,
       requests = [\<lparr>DateFrom = 19812, DateTo = 19813, Page = 1, Count = 25\<rparr>,
                   \<lparr>DateFrom = 19813, DateTo = 19815, Page = 1, Count = 25\<rparr>],
       downloads = []\<rparr>)"
  by (simp add: processDateRange_def windows_loop.simps write_metadata_def
      process_window_def pages_loop.simps window_params_def searchDocuments_def
      empty_portal_berlin_def empty_portal_def ok_def isoDate_def msPerDay_def
      setDate_plus_def UTC_def LocalTime_def timeClip_def maxTime_def Rep_berlin)

text \<open>
  A range that ends on the last day of \<open>Date\<close> (+275760-09-13): no request is sent,
  the run throws and \<open>metadata.json\<close> is not written.
\<close>

lemma overflow_run:
  "processDateRange empty_portal (Some maxTime) (Some maxTime) 40 None
   = (Some RangeError,
      \<lparr>results = [], metadata_file = None, requests = [], downloads = []\<rparr>)"
  by (simp add: processDateRange_def windows_loop.simps empty_portal_def msPerDay_def utc_step)

section \<open>C1: the windows of a date range\<close>

text \<open>
  C1 (amended). In a process whose time zone keeps one UTC offset (as UTC does), and for
  valid dates \<open>startDate \<le> endDate\<close> with \<open>endDate\<close> at least two days before the end of
  the range of \<open>Date\<close>, \<open>processDateRange\<close> completes and walks the windows
  \<open>window[i] = [day(startDate) + 2i, day(startDate) + 2i + 2]\<close> for
  \<open>i = 0, ..., (endDate - startDate) div 2 days\<close>: the width is the constant 2 and the end
  of a window is never cut at \<open>endDate\<close>. The windows are in ascending order, each ends on
  the day the next one starts, and together they cover the days from \<open>startDate\<close> to the
  end of the last window, which is at least the day of \<open>endDate\<close>, at most two days past
  it, and strictly past it whenever \<open>startDate\<close> is a midnight (a date-only text). With
  \<open>maxPages \<ge> 1\<close> these windows are exactly the date pairs of the first-page requests of
  the run, in order.
\<close>

theorem processDateRange_windows:
  assumes "\<forall>t u. Rep_tz_offset (localTZA e t u) = c"
    and "startDate \<le> endDate"
    and "- maxTime \<le> startDate" and "endDate + 2 * msPerDay \<le> maxTime"
  shows "windows (localTZA e) endDate startDate
           = map (\<lambda>i. (isoDate startDate + 2 * int i, isoDate startDate + 2 * int i + 2))
               [0..<Suc (nat ((endDate - startDate) div (2 * msPerDay)))]
         \<and> (\<forall>i. Suc i < length (windows (localTZA e) endDate startDate) \<longrightarrow>
              snd (windows (localTZA e) endDate startDate ! i)
                = fst (windows (localTZA e) endDate startDate ! Suc i)
              \<and> fst (windows (localTZA e) endDate startDate ! i)
                  < fst (windows (localTZA e) endDate startDate ! Suc i))
         \<and> isoDate endDate \<le> snd (last (windows (localTZA e) endDate startDate))
         \<and> snd (last (windows (localTZA e) endDate startDate)) \<le> isoDate endDate + 2
         \<and> (startDate mod msPerDay = 0 \<longrightarrow>
              isoDate endDate < snd (last (windows (localTZA e) endDate startDate)))
         \<and> fst (processDateRange e (Some startDate) (Some endDate) maxPages disk) = None
         \<and> (1 \<le> maxPages \<longrightarrow>
              map (\<lambda>r. (DateFrom r, DateTo r))
                (filter (\<lambda>r. Page r = 1)
                  (requests (snd (processDateRange e (Some startDate) (Some endDate)
                                    maxPages disk))))
              = windows (localTZA e) endDate startDate)"
proof -
  let ?st0 = "\<lparr>results = [], metadata_file = disk, requests = [], downloads = []\<rparr>"
  have f: "fst (windows_loop e maxPages endDate startDate ?st0) = None"
    using assms(1,3,4) by (rule windows_loop_completes)
  then have p: "processDateRange e (Some startDate) (Some endDate) maxPages disk
      = (None, write_metadata e (snd (windows_loop e maxPages endDate startDate ?st0)))"
    by (cases "windows_loop e maxPages endDate startDate ?st0")
       (simp add: processDateRange_def Let_def)
  have "1 \<le> maxPages \<Longrightarrow>
        map (\<lambda>r. (DateFrom r, DateTo r))
          (filter (\<lambda>r. Page r = 1)
            (requests (snd (processDateRange e (Some startDate) (Some endDate)
                              maxPages disk))))
        = windows (localTZA e) endDate startDate"
    using windows_loop_first_pages[of maxPages e endDate startDate ?st0]
    by (simp add: p write_metadata_def)
  moreover have "\<forall>i. Suc i < length (windows (localTZA e) endDate startDate) \<longrightarrow>
      snd (windows (localTZA e) endDate startDate ! i)
        = fst (windows (localTZA e) endDate startDate ! Suc i)
      \<and> fst (windows (localTZA e) endDate startDate ! i)
          < fst (windows (localTZA e) endDate startDate ! Suc i)"
    by (simp add: windows_closed[OF assms] del: upt_Suc)
  moreover have "fst (processDateRange e (Some startDate) (Some endDate) maxPages disk) = None"
    by (simp add: p)
  ultimately show ?thesis
    using windows_closed[OF assms] last_window_bounds[OF assms] by blast
qed

theorem processDateRange_windows_witness:
  "(\<forall>t u. Rep_tz_offset (localTZA empty_portal t u) = 0)
   \<and> 19723 * msPerDay \<le> 19727 * msPerDay
   \<and> - maxTime \<le> 19723 * msPerDay \<and> 19727 * msPerDay + 2 * msPerDay \<le> maxTime
   \<and> (19723 * msPerDay) mod msPerDay = 0
   \<and> windows (localTZA empty_portal) (19727 * msPerDay) (19723 * msPerDay)
       = [(19723, 19725), (19725, 19727), (19727, 19729)]
   \<and> isoDate (19727 * msPerDay)
       < snd (last (windows (localTZA empty_portal) (19727 * msPerDay) (19723 * msPerDay)))
   \<and> snd (last (windows (localTZA empty_portal) (19727 * msPerDay) (19723 * msPerDay)))
       \<le> isoDate (19727 * msPerDay) + 2
   \<and> fst (processDateRange empty_portal (Some (19723 * msPerDay))
             (Some (19727 * msPerDay)) 40 None) = None
   \<and> map (\<lambda>r. (DateFrom r, DateTo r))
        (filter (\<lambda>r. Page r = 1)
          (requests (snd (processDateRange empty_portal (Some (19723 * msPerDay))
             (Some (19727 * msPerDay)) 40 None))))
       = windows (localTZA empty_portal) (19727 * msPerDay) (19723 * msPerDay)"
proof -
  have z: "\<forall>t u. Rep_tz_offset (localTZA empty_portal t u) = 0"
    by (simp add: empty_portal_def Rep_utc_zone)
  have h: "19723 * msPerDay \<le> 19727 * msPerDay"
    by (simp add: msPerDay_def)
  have lo: "- maxTime \<le> 19723 * msPerDay"
    by (simp add: msPerDay_def maxTime_def)
  have hi: "19727 * msPerDay + 2 * msPerDay \<le> maxTime"
    by (simp add: msPerDay_def maxTime_def)
  have m: "(19723 * msPerDay) mod msPerDay = 0"
    by simp
  have n: "[0..<Suc (nat ((19727 * msPerDay - 19723 * msPerDay) div (2 * msPerDay)))] = [0, 1, 2]"
    by (simp add: msPerDay_def upt_rec)
  show ?thesis
    using processDateRange_windows[OF z h lo hi, of 40 None, unfolded n] z h lo hi m
    by (simp add: isoDate_def msPerDay_def)
qed

text \<open>
  The range 2024-01-01..2024-01-05 (days 19723..19727), in a process that runs in UTC:
  the third window is requested with \<open>DateTo\<close> 2024-01-07, two days past \<open>endDate\<close>,
  where a window cut at \<open>endDate\<close> would be \<open>[01-05, 01-05]\<close>.
\<close>

theorem processDateRange_windows_counterexample:
  "requests (snd (processDateRange empty_portal (Some (19723 * msPerDay))
      (Some (19727 * msPerDay)) 40 None))
   = [\<lparr>DateFrom = 19723, DateTo = 19725, Page = 1, Count = 25\<rparr>,
      \<lparr>DateFrom = 19725, DateTo = 19727, Page = 1, Count = 25\<rparr>,
      \<lparr>DateFrom = 19727, DateTo = 19729, Page = 1, Count = 25\<rparr>]
   \<and> \<not> DateTo (last (requests (snd (processDateRange empty_portal (Some (19723 * msPerDay))
          (Some (19727 * msPerDay)) 40 None)))) \<le> isoDate (19727 * msPerDay)"
  by (simp add: processDateRange_def windows_loop.simps process_window_def pages_loop.simps
      window_params_def searchDocuments_def empty_portal_def ok_def write_metadata_def
      isoDate_def utc_step msPerDay_def)

section \<open>C7: the pages of a window\<close>

text \<open>
  C7. Within a window the pages are requested from 1 upward, one by one: the requests
  of a window are the pages \<open>1, ..., k\<close> for some \<open>k \<le> maxPages\<close>, and every page before
  the last one answered with results. A page that is requested and answers with an empty
  result array (or none) is the last one: if that is page \<open>j\<close>, the pages requested are
  exactly \<open>1, ..., j\<close>. Said from the portal's side: when pages \<open>1, ..., k - 1\<close> answer
  with results and page \<open>k \<le> maxPages\<close> with an empty array, the requests are the pages
  \<open>1, ..., k\<close>; when every page up to \<open>maxPages\<close> has results, they are the pages
  \<open>1, ..., maxPages\<close>. With an empty page 3 the window asks for pages 1, 2 and 3 and
  never for page 4.
\<close>

theorem pages_of_a_window:
  "(1 \<le> maxPages \<longrightarrow>
     (\<exists>k. 1 \<le> k \<and> k \<le> maxPages
        \<and> requests (process_window e maxPages currentDate nextDate st)
            = requests st @ map (\<lambda>q. (window_params currentDate nextDate)\<lparr>Page := q\<rparr>) [1..k]
        \<and> (\<forall>q. 1 \<le> q \<and> q < k \<longrightarrow>
              (\<exists>r. searchDocuments e ((window_params currentDate nextDate)\<lparr>Page := q\<rparr>) = Inr r
                   \<and> \<not> page_empty r))))
   \<and> (1 \<le> j
      \<and> (window_params currentDate nextDate)\<lparr>Page := j\<rparr>
           \<in> set (requests (process_window e maxPages currentDate nextDate fresh))
      \<and> (\<exists>r. searchDocuments e ((window_params currentDate nextDate)\<lparr>Page := j\<rparr>) = Inr r
               \<and> page_empty r)
    \<longrightarrow> requests (process_window e maxPages currentDate nextDate fresh)
          = map (\<lambda>q. (window_params currentDate nextDate)\<lparr>Page := q\<rparr>) [1..j])
   \<and> (1 \<le> k \<and> k \<le> maxPages
      \<and> (\<forall>q. 1 \<le> q \<and> q < k \<longrightarrow>
            (\<exists>r. searchDocuments e ((window_params currentDate nextDate)\<lparr>Page := q\<rparr>) = Inr r
                 \<and> \<not> page_empty r))
      \<and> (\<exists>r. searchDocuments e ((window_params currentDate nextDate)\<lparr>Page := k\<rparr>) = Inr r
               \<and> page_empty r)
    \<longrightarrow> requests (process_window e maxPages currentDate nextDate st)
          = requests st @ map (\<lambda>q. (window_params currentDate nextDate)\<lparr>Page := q\<rparr>) [1..k])
   \<and> ((\<forall>q. 1 \<le> q \<and> q \<le> maxPages \<longrightarrow>
            (\<exists>r. searchDocuments e ((window_params currentDate nextDate)\<lparr>Page := q\<rparr>) = Inr r
                 \<and> \<not> page_empty r))
    \<longrightarrow> requests (process_window e maxPages currentDate nextDate st)
          = requests st @ map (\<lambda>q. (window_params currentDate nextDate)\<lparr>Page := q\<rparr>) [1..maxPages])"
proof (intro conjI impI)
  assume "1 \<le> maxPages"
  then show "\<exists>k. 1 \<le> k \<and> k \<le> maxPages
        \<and> requests (process_window e maxPages currentDate nextDate st)
            = requests st @ map (\<lambda>q. (window_params currentDate nextDate)\<lparr>Page := q\<rparr>) [1..k]
        \<and> (\<forall>q. 1 \<le> q \<and> q < k \<longrightarrow>
              (\<exists>r. searchDocuments e ((window_params currentDate nextDate)\<lparr>Page := q\<rparr>) = Inr r
                   \<and> \<not> page_empty r))"
    using pages_loop_pages[of 1 maxPages e "window_params currentDate nextDate" st]
    unfolding process_window_def by auto
next
  let ?wp = "window_params currentDate nextDate"
  assume a: "1 \<le> j \<and> ?wp\<lparr>Page := j\<rparr> \<in> set (requests (process_window e maxPages currentDate nextDate fresh))
      \<and> (\<exists>r. searchDocuments e (?wp\<lparr>Page := j\<rparr>) = Inr r \<and> page_empty r)"
  obtain k where k: "requests (process_window e maxPages currentDate nextDate fresh)
        = map (\<lambda>q. ?wp\<lparr>Page := q\<rparr>) [1..k]"
      "\<forall>q. 1 \<le> q \<and> q < k \<longrightarrow>
          (\<exists>r. searchDocuments e (?wp\<lparr>Page := q\<rparr>) = Inr r \<and> \<not> page_empty r)"
    using pages_loop_pages[of 1 maxPages e ?wp fresh]
    unfolding process_window_def by (auto simp: fresh_def)
  have "j \<in> set [1..k]"
    using a k(1) window_params_page[where currentDate = currentDate and j = j
        and S = "set [1..k]"] by simp
  then have "j \<le> k" by simp
  moreover have "\<not> j < k"
    using a k(2) by auto
  ultimately have "j = k" by simp
  then show "requests (process_window e maxPages currentDate nextDate fresh)
          = map (\<lambda>q. ?wp\<lparr>Page := q\<rparr>) [1..j]"
    using k(1) by simp
next
  assume "1 \<le> k \<and> k \<le> maxPages
      \<and> (\<forall>q. 1 \<le> q \<and> q < k \<longrightarrow>
            (\<exists>r. searchDocuments e ((window_params currentDate nextDate)\<lparr>Page := q\<rparr>) = Inr r
                 \<and> \<not> page_empty r))
      \<and> (\<exists>r. searchDocuments e ((window_params currentDate nextDate)\<lparr>Page := k\<rparr>) = Inr r
               \<and> page_empty r)"
  then show "requests (process_window e maxPages currentDate nextDate st)
          = requests st @ map (\<lambda>q. (window_params currentDate nextDate)\<lparr>Page := q\<rparr>) [1..k]"
    unfolding process_window_def
    using pages_loop_stop[of 1 k maxPages e "window_params currentDate nextDate" st] by blast
next
  assume "\<forall>q. 1 \<le> q \<and> q \<le> maxPages \<longrightarrow>
            (\<exists>r. searchDocuments e ((window_params currentDate nextDate)\<lparr>Page := q\<rparr>) = Inr r
                 \<and> \<not> page_empty r)"
  then show "requests (process_window e maxPages currentDate nextDate st)
          = requests st @ map (\<lambda>q. (window_params currentDate nextDate)\<lparr>Page := q\<rparr>) [1..maxPages]"
    unfolding process_window_def
    using pages_loop_cap[of 1 maxPages e "window_params currentDate nextDate" st] by blast
qed

theorem pages_of_a_window_witness:
  "(1::int) \<le> 3 \<and> (3::int) \<le> 40
   \<and> searchDocuments three_pages ((window_params (19723 * msPerDay) (19725 * msPerDay))\<lparr>Page := 3\<rparr>)
       = Inr (Body (Some []))
   \<and> requests (process_window three_pages 40 (19723 * msPerDay) (19725 * msPerDay) fresh)
       = [\<lparr>DateFrom = 19723, DateTo = 19725, Page = 1, Count = 25\<rparr>,
          \<lparr>DateFrom = 19723, DateTo = 19725, Page = 2, Count = 25\<rparr>,
          \<lparr>DateFrom = 19723, DateTo = 19725, Page = 3, Count = 25\<rparr>]
   \<and> (window_params (19723 * msPerDay) (19725 * msPerDay))\<lparr>Page := 3\<rparr>
       \<in> set (requests (process_window three_pages 40 (19723 * msPerDay) (19725 * msPerDay) fresh))
   \<and> \<lparr>DateFrom = 19723, DateTo = 19725, Page = 4, Count = 25\<rparr>
       \<notin> set (requests (process_window three_pages 40 (19723 * msPerDay) (19725 * msPerDay) fresh))"
proof -
  have a: "\<forall>q. 1 \<le> q \<and> q < 3 \<longrightarrow>
            (\<exists>r. searchDocuments three_pages ((window_params (19723 * msPerDay) (19725 * msPerDay))\<lparr>Page := q\<rparr>) = Inr r
                 \<and> \<not> page_empty r)"
    by (simp add: searchDocuments_def three_pages_def ok_def)
  have b: "searchDocuments three_pages ((window_params (19723 * msPerDay) (19725 * msPerDay))\<lparr>Page := 3\<rparr>)
       = Inr (Body (Some []))"
    by (simp add: searchDocuments_def three_pages_def ok_def)
  have c: "[1..3::int] = [1, 2, 3]"
    by (simp add: upto_rec1)
  note t = pages_of_a_window[where k = 3 and j = 3 and maxPages = 40 and e = three_pages
      and currentDate = "19723 * msPerDay" and st = fresh,
      THEN conjunct2, THEN conjunct2, THEN conjunct1]
  have "requests (process_window three_pages 40 (19723 * msPerDay) (19725 * msPerDay) fresh)
      = requests fresh @ map (\<lambda>q. (window_params (19723 * msPerDay) (19725 * msPerDay))\<lparr>Page := q\<rparr>) [1..3]"
  proof (rule t[THEN mp], intro conjI)
    show "(1::int) \<le> 3" and "(3::int) \<le> 40"
      by simp_all
    show "\<forall>q. 1 \<le> q \<and> q < 3 \<longrightarrow>
            (\<exists>r. searchDocuments three_pages ((window_params (19723 * msPerDay) (19725 * msPerDay))\<lparr>Page := q\<rparr>) = Inr r
                 \<and> \<not> page_empty r)"
      by (rule a)
    show "\<exists>r. searchDocuments three_pages ((window_params (19723 * msPerDay) (19725 * msPerDay))\<lparr>Page := 3\<rparr>) = Inr r
            \<and> page_empty r"
      using b by simp
  qed
  then show ?thesis
    using b by (simp add: c fresh_def window_params_def isoDate_def utc_step msPerDay_def)
qed

section \<open>C3: failed search requests\<close>

text \<open>
  C3 (amended). A 2xx answer with an empty result array ends the pages of the window
  without an error. Every other failure is thrown by \<open>searchDocuments\<close> after the one
  request, whatever its kind: a status outside 2xx (4xx and 5xx alike) as \<open>HttpError\<close>,
  a timeout as \<open>TimeoutError\<close>. Nothing is retried: the window is left with that single
  request recorded and nothing else changed, and the run goes on with the next window,
  whatever the page loop of the window returned.
\<close>

theorem search_failure_handling:
  "(page \<le> maxPages \<and> portal e (sp\<lparr>Page := page\<rparr>) = Http status (Some r)
      \<and> ok status \<and> page_empty r
    \<longrightarrow> pages_loop e maxPages sp page st
          = (None, st\<lparr>requests := requests st @ [sp\<lparr>Page := page\<rparr>]\<rparr>))
   \<and> (page \<le> maxPages \<and> portal e (sp\<lparr>Page := page\<rparr>) = Http status body \<and> \<not> ok status
    \<longrightarrow> pages_loop e maxPages sp page st
          = (Some (HttpError status), st\<lparr>requests := requests st @ [sp\<lparr>Page := page\<rparr>]\<rparr>))
   \<and> (page \<le> maxPages \<and> portal e (sp\<lparr>Page := page\<rparr>) = Timeout
    \<longrightarrow> pages_loop e maxPages sp page st
          = (Some TimeoutError, st\<lparr>requests := requests st @ [sp\<lparr>Page := page\<rparr>]\<rparr>))
   \<and> (1 \<le> maxPages \<and> currentDate \<le> endDateObj
      \<and> setDate_plus (localTZA e) currentDate 2 = Some nextDate
      \<and> (portal e (window_params currentDate nextDate) = Timeout
           \<or> (\<exists>s b. portal e (window_params currentDate nextDate) = Http s b \<and> \<not> ok s))
    \<longrightarrow> windows_loop e maxPages endDateObj currentDate st
          = windows_loop e maxPages endDateObj nextDate
              (st\<lparr>requests := requests st @ [window_params currentDate nextDate]\<rparr>))
   \<and> (currentDate \<le> endDateObj \<and> setDate_plus (localTZA e) currentDate 2 = Some nextDate
    \<longrightarrow> windows_loop e maxPages endDateObj currentDate st
          = windows_loop e maxPages endDateObj nextDate
              (snd (pages_loop e maxPages (window_params currentDate nextDate) 1 st)))"
proof -
  have a: "page \<le> maxPages \<Longrightarrow> portal e (sp\<lparr>Page := page\<rparr>) = Http status (Some r) \<Longrightarrow>
      ok status \<Longrightarrow> page_empty r \<Longrightarrow>
      pages_loop e maxPages sp page st
        = (None, st\<lparr>requests := requests st @ [sp\<lparr>Page := page\<rparr>]\<rparr>)"
    by (rule pages_loop_empty) (simp_all add: searchDocuments_def)
  have b: "page \<le> maxPages \<Longrightarrow> portal e (sp\<lparr>Page := page\<rparr>) = Http status body \<Longrightarrow>
      \<not> ok status \<Longrightarrow>
      pages_loop e maxPages sp page st
        = (Some (HttpError status), st\<lparr>requests := requests st @ [sp\<lparr>Page := page\<rparr>]\<rparr>)"
    by (rule pages_loop_throw) (simp_all add: searchDocuments_def)
  have c: "page \<le> maxPages \<Longrightarrow> portal e (sp\<lparr>Page := page\<rparr>) = Timeout \<Longrightarrow>
      pages_loop e maxPages sp page st
        = (Some TimeoutError, st\<lparr>requests := requests st @ [sp\<lparr>Page := page\<rparr>]\<rparr>)"
    by (rule pages_loop_throw) (simp_all add: searchDocuments_def)
  have wp: "(window_params currentDate nextDate)\<lparr>Page := 1\<rparr> = window_params currentDate nextDate"
    by (simp add: window_params_def)
  have d: "1 \<le> maxPages \<Longrightarrow> currentDate \<le> endDateObj \<Longrightarrow>
      setDate_plus (localTZA e) currentDate 2 = Some nextDate \<Longrightarrow>
      portal e (window_params currentDate nextDate) = Timeout
        \<or> (\<exists>s b. portal e (window_params currentDate nextDate) = Http s b \<and> \<not> ok s) \<Longrightarrow>
      windows_loop e maxPages endDateObj currentDate st
        = windows_loop e maxPages endDateObj nextDate
            (st\<lparr>requests := requests st @ [window_params currentDate nextDate]\<rparr>)"
  proof -
    assume m: "1 \<le> maxPages" and le: "currentDate \<le> endDateObj"
      and n: "setDate_plus (localTZA e) currentDate 2 = Some nextDate"
      and f: "portal e (window_params currentDate nextDate) = Timeout
        \<or> (\<exists>s b. portal e (window_params currentDate nextDate) = Http s b \<and> \<not> ok s)"
    then obtain err where
      "searchDocuments e ((window_params currentDate nextDate)\<lparr>Page := 1\<rparr>) = Inl err"
      by (auto simp: searchDocuments_def wp)
    then have "process_window e maxPages currentDate nextDate st
        = st\<lparr>requests := requests st @ [window_params currentDate nextDate]\<rparr>"
      using m by (simp add: process_window_def pages_loop_throw wp)
    then show ?thesis
      using le n by (simp add: windows_loop_step)
  qed
  have g: "currentDate \<le> endDateObj \<Longrightarrow>
      setDate_plus (localTZA e) currentDate 2 = Some nextDate \<Longrightarrow>
      windows_loop e maxPages endDateObj currentDate st
        = windows_loop e maxPages endDateObj nextDate
            (snd (pages_loop e maxPages (window_params currentDate nextDate) 1 st))"
    by (simp add: windows_loop_step process_window_def)
  show ?thesis
    using a b c d g by blast
qed

theorem search_failure_handling_witness:
  "(1::int) \<le> 40 \<and> \<not> ok 503 \<and> ok 200 \<and> page_empty (Body (Some []))
   \<and> portal empty_portal ((window_params 0 (2 * msPerDay))\<lparr>Page := 1\<rparr>) = Http 200 (Some (Body (Some [])))
   \<and> pages_loop empty_portal 40 (window_params 0 (2 * msPerDay)) 1 fresh
       = (None, fresh\<lparr>requests := [\<lparr>DateFrom = 0, DateTo = 2, Page = 1, Count = 25\<rparr>]\<rparr>)
   \<and> portal always_503 ((window_params 0 (2 * msPerDay))\<lparr>Page := 1\<rparr>) = Http 503 None
   \<and> pages_loop always_503 40 (window_params 0 (2 * msPerDay)) 1 fresh
       = (Some (HttpError 503),
          fresh\<lparr>requests := [\<lparr>DateFrom = 0, DateTo = 2, Page = 1, Count = 25\<rparr>]\<rparr>)
   \<and> portal timing_out ((window_params 0 (2 * msPerDay))\<lparr>Page := 1\<rparr>) = Timeout
   \<and> pages_loop timing_out 40 (window_params 0 (2 * msPerDay)) 1 fresh
       = (Some TimeoutError,
          fresh\<lparr>requests := [\<lparr>DateFrom = 0, DateTo = 2, Page = 1, Count = 25\<rparr>]\<rparr>)
   \<and> setDate_plus (localTZA always_503) 0 2 = Some (2 * msPerDay)
   \<and> windows_loop always_503 40 0 0 fresh
       = windows_loop always_503 40 0 (2 * msPerDay)
           (fresh\<lparr>requests := [\<lparr>DateFrom = 0, DateTo = 2, Page = 1, Count = 25\<rparr>]\<rparr>)"
proof -
  have h: "(1::int) \<le> 40 \<and> \<not> ok 503 \<and> ok 200 \<and> page_empty (Body (Some []))
      \<and> portal empty_portal ((window_params 0 (2 * msPerDay))\<lparr>Page := 1\<rparr>)
          = Http 200 (Some (Body (Some [])))
      \<and> portal always_503 ((window_params 0 (2 * msPerDay))\<lparr>Page := 1\<rparr>) = Http 503 None
      \<and> portal always_503 (window_params 0 (2 * msPerDay)) = Http 503 None
      \<and> portal timing_out ((window_params 0 (2 * msPerDay))\<lparr>Page := 1\<rparr>) = Timeout
      \<and> setDate_plus (localTZA always_503) 0 2 = Some (2 * msPerDay)"
    by (simp add: empty_portal_def always_503_def timing_out_def ok_def utc_step msPerDay_def)
  show ?thesis
    using search_failure_handling[where page = 1 and maxPages = 40 and e = empty_portal
        and sp = "window_params 0 (2 * msPerDay)" and status = 200 and r = "Body (Some [])" and st = fresh]
      search_failure_handling[where page = 1 and maxPages = 40 and e = always_503
        and sp = "window_params 0 (2 * msPerDay)" and status = 503 and body = None and st = fresh
        and currentDate = 0 and endDateObj = 0 and nextDate = "2 * msPerDay"]
      search_failure_handling[where page = 1 and maxPages = 40 and e = timing_out
        and sp = "window_params 0 (2 * msPerDay)" and st = fresh]
      h
    by (simp add: fresh_def window_params_def isoDate_def utc_step msPerDay_def)
qed

text \<open>
  A portal that answers 503 to everything, on the range 2024-01-01..2024-01-03: each of the
  two windows is asked for page 1 once, and no request is sent a second time.
\<close>

theorem search_retry_counterexample:
  "requests (snd (processDateRange always_503 (Some (19723 * msPerDay))
      (Some (19725 * msPerDay)) 40 None))
   = [\<lparr>DateFrom = 19723, DateTo = 19725, Page = 1, Count = 25\<rparr>,
      \<lparr>DateFrom = 19725, DateTo = 19727, Page = 1, Count = 25\<rparr>]"
  by (simp add: processDateRange_def windows_loop.simps process_window_def pages_loop.simps
      window_params_def searchDocuments_def always_503_def ok_def write_metadata_def
      isoDate_def utc_step msPerDay_def)

section \<open>C4: when the ledger is written\<close>

text \<open>
  C4 (amended). \<open>metadata.json\<close> is written once, after the last window: no window and
  no sequence of windows changes the file on disk, and the write at the end stores the
  whole list of the run with its length. A run that an error ends before its last window
  (a date beyond the range of \<open>Date\<close>) leaves the file as it was.
\<close>

theorem ledger_written_once:
  "metadata_file (process_window e maxPages currentDate nextDate st) = metadata_file st
   \<and> metadata_file (snd (windows_loop e maxPages endDateObj currentDate st)) = metadata_file st
   \<and> metadata_file (snd (processDateRange e startDate endDate maxPages disk))
       = (case fst (processDateRange e startDate endDate maxPages disk) of
            None \<Rightarrow>
              Some \<lparr>total_documents =
                      length (results (snd (processDateRange e startDate endDate maxPages disk))),
                    processed_at = clock e,
                    documents = results (snd (processDateRange e startDate endDate maxPages disk))\<rparr>
          | Some err \<Rightarrow> disk)"
  by (simp add: process_window_metadata windows_loop_metadata processDateRange_metadata)

theorem ledger_written_once_witness:
  "fst (processDateRange boundary_portal (Some (19723 * msPerDay))
      (Some (19725 * msPerDay)) 40 None) = None
   \<and> metadata_file (snd (processDateRange boundary_portal (Some (19723 * msPerDay))
      (Some (19725 * msPerDay)) 40 None))
   = Some \<lparr>total_documents = 2, processed_at = 1704412800000,
           documents = [decision_entry 0, decision_entry 1]\<rparr>
   \<and> metadata_file (process_window boundary_portal 40 (19723 * msPerDay) (19725 * msPerDay)
        fresh) = None"
  using ledger_written_once[where e = boundary_portal and maxPages = 40
      and currentDate = "19723 * msPerDay" and nextDate = "19725 * msPerDay" and st = fresh
      and startDate = "Some (19723 * msPerDay)" and endDate = "Some (19725 * msPerDay)"
      and disk = None]
  by (simp add: boundary_run) (simp add: fresh_def)

text \<open>
  After the first window of the sample run one document has been downloaded and is in the
  list in memory, and there is still no \<open>metadata.json\<close>.
\<close>

theorem ledger_flush_counterexample:
  "results (process_window boundary_portal 40 (19723 * msPerDay) (19725 * msPerDay) fresh) = [decision_entry 0]
   \<and> metadata_file (process_window boundary_portal 40 (19723 * msPerDay) (19725 * msPerDay) fresh) = None"
  by (simp add: boundary_first_window decision_entry_def)

section \<open>C2: entries that share a source URL\<close>

text \<open>
  C2 (amended). Every result that passes the filter and is downloaded is pushed to the
  list, with no look at the URLs already there: two such results with the same
  \<open>DocumentUrl\<close> leave two entries. The \<open>documents\<close> array of the ledger that a run
  persists is this list and \<open>total_documents\<close> is its length; a run that an error ends
  before its last window persists nothing.
\<close>

theorem append_unconditional:
  "(harvested e st d u fp \<longrightarrow>
      results (process_doc e st d)
      = results st @ [\<lparr>caseNumber = CaseNumber d, title = Title d, date = Date d,
                       url = u, filepath = fp\<rparr>])
   \<and> (harvested e st da u fpa \<and> harvested e (process_doc e st da) db u fpb \<longrightarrow>
      results (process_docs e st [da, db])
      = results st @ [\<lparr>caseNumber = CaseNumber da, title = Title da, date = Date da,
                       url = u, filepath = fpa\<rparr>,
                      \<lparr>caseNumber = CaseNumber db, title = Title db, date = Date db,
                       url = u, filepath = fpb\<rparr>])
   \<and> (case fst (processDateRange e startDate endDate maxPages disk) of
         None \<Rightarrow>
           (\<exists>m. metadata_file (snd (processDateRange e startDate endDate maxPages disk)) = Some m
              \<and> documents m = results (snd (processDateRange e startDate endDate maxPages disk))
              \<and> total_documents m = length (documents m))
       | Some err \<Rightarrow>
           metadata_file (snd (processDateRange e startDate endDate maxPages disk)) = disk)"
proof (intro conjI impI)
  assume "harvested e st d u fp"
  then show "results (process_doc e st d)
      = results st @ [\<lparr>caseNumber = CaseNumber d, title = Title d, date = Date d,
                       url = u, filepath = fp\<rparr>]"
    by (simp add: process_doc_harvested)
next
  assume "harvested e st da u fpa \<and> harvested e (process_doc e st da) db u fpb"
  then have "process_doc e st da
        = st\<lparr>downloads := downloads st @ [u],
             results := results st @
               [\<lparr>caseNumber = CaseNumber da, title = Title da, date = Date da,
                 url = u, filepath = fpa\<rparr>]\<rparr>"
    and "process_doc e (process_doc e st da) db
        = (process_doc e st da)\<lparr>downloads := downloads (process_doc e st da) @ [u],
            results := results (process_doc e st da) @
              [\<lparr>caseNumber = CaseNumber db, title = Title db, date = Date db,
                url = u, filepath = fpb\<rparr>]\<rparr>"
    by (simp_all add: process_doc_harvested)
  then show "results (process_docs e st [da, db])
      = results st @ [\<lparr>caseNumber = CaseNumber da, title = Title da, date = Date da,
                       url = u, filepath = fpa\<rparr>,
                      \<lparr>caseNumber = CaseNumber db, title = Title db, date = Date db,
                       url = u, filepath = fpb\<rparr>]"
    by (simp add: process_docs_def)
next
  show "case fst (processDateRange e startDate endDate maxPages disk) of
         None \<Rightarrow>
           (\<exists>m. metadata_file (snd (processDateRange e startDate endDate maxPages disk)) = Some m
              \<and> documents m = results (snd (processDateRange e startDate endDate maxPages disk))
              \<and> total_documents m = length (documents m))
       | Some err \<Rightarrow>
           metadata_file (snd (processDateRange e startDate endDate maxPages disk)) = disk"
    using processDateRange_metadata[of e startDate endDate maxPages disk]
    by (simp split: option.splits)
qed

theorem append_unconditional_witness:
  "harvested boundary_portal fresh decision_doc [47, 100, 47, 49] (filepath (decision_entry 0))
   \<and> harvested boundary_portal (process_doc boundary_portal fresh decision_doc) decision_doc
        [47, 100, 47, 49] (filepath (decision_entry 1))
   \<and> results (process_docs boundary_portal fresh [decision_doc, decision_doc])
       = [decision_entry 0, decision_entry 1]
   \<and> url (decision_entry 0) = url (decision_entry 1)"
  using append_unconditional[where e = boundary_portal and st = fresh and d = decision_doc
      and da = decision_doc and db = decision_doc and u = "[47, 100, 47, 49]"
      and fp = "filepath (decision_entry 0)" and fpa = "filepath (decision_entry 0)"
      and fpb = "filepath (decision_entry 1)", THEN conjunct2, THEN conjunct1]
    harvested_decision_doc
  by (simp add: fresh_def decision_doc_def decision_entry_def)

text \<open>
  The sample decision is dated on the day two adjacent windows share, so the run over
  2024-01-01..2024-01-03 downloads it in both and persists two entries with one URL.
\<close>

theorem ledger_duplicate_counterexample:
  "map url (results (snd (processDateRange boundary_portal (Some (19723 * msPerDay))
      (Some (19725 * msPerDay)) 40 None)))
   = [[47, 100, 47, 49], [47, 100, 47, 49]]
   \<and> metadata_file (snd (processDateRange boundary_portal (Some (19723 * msPerDay))
      (Some (19725 * msPerDay)) 40 None))
   = Some \<lparr>total_documents = 2, processed_at = 1704412800000,
           documents = [decision_entry 0, decision_entry 1]\<rparr>"
  by (simp add: boundary_run decision_entry_def)

section \<open>C6: the classification of a result\<close>

text \<open>
  C6 (amended). With \<open>text = lowercase(caseNumber + " " + title)\<close>: a result whose text
  contains an exclude keyword is skipped, whether or not an include keyword occurs too;
  otherwise a result whose text contains an include keyword and which has a non-empty
  \<open>DocumentUrl\<close> is handed to the download; a result with no include keyword in its text,
  or with no \<open>DocumentUrl\<close>, is skipped.
\<close>

theorem classification_rule:
  "((\<exists>k \<in> set excludeKeywords. \<exists>a b.
        toLowerCase e (orEmpty (CaseNumber d) @ [32] @ orEmpty (Title d)) = a @ k @ b)
     \<longrightarrow> process_doc e st d = st)
   \<and> (\<not> (\<exists>k \<in> set excludeKeywords. \<exists>a b.
        toLowerCase e (orEmpty (CaseNumber d) @ [32] @ orEmpty (Title d)) = a @ k @ b)
      \<and> (\<exists>k \<in> set includeKeywords. \<exists>a b.
        toLowerCase e (orEmpty (CaseNumber d) @ [32] @ orEmpty (Title d)) = a @ k @ b)
      \<and> DocumentUrl d = Some u \<and> u \<noteq> []
     \<longrightarrow> downloads (process_doc e st d) = downloads st @ [u])
   \<and> (\<not> (\<exists>k \<in> set includeKeywords. \<exists>a b.
        toLowerCase e (orEmpty (CaseNumber d) @ [32] @ orEmpty (Title d)) = a @ k @ b)
     \<longrightarrow> process_doc e st d = st)
   \<and> (\<not> truthy (DocumentUrl d) \<longrightarrow> process_doc e st d = st)"
  unfolding shouldExclude_iff[symmetric] shouldInclude_iff[symmetric] doc_text_def[symmetric]
  by (auto simp: process_doc_def Let_def truthy_def orEmpty_def split: option.splits)

theorem classification_rule_witness:
  "process_doc boundary_portal fresh postponed_doc = fresh
   \<and> downloads (process_doc boundary_portal fresh case123_doc) = [[47, 100, 47, 50]]
   \<and> process_doc boundary_portal fresh hearing_doc = fresh
   \<and> process_doc boundary_portal fresh no_url_doc = fresh"
  using classification_rule[where e = boundary_portal and d = postponed_doc and st = fresh]
    classification_rule[where e = boundary_portal and d = case123_doc and st = fresh
      and u = "[47, 100, 47, 50]"]
    classification_rule[where e = boundary_portal and d = hearing_doc and st = fresh]
    classification_rule[where e = boundary_portal and d = no_url_doc and st = fresh]
    texts
  unfolding shouldExclude_iff shouldInclude_iff doc_text_def
  by (simp add: case123_doc_def no_url_doc_def truthy_def fresh_def)

text \<open>
  A decision with the include keyword in its title, no exclude keyword and no
  \<open>DocumentUrl\<close> is skipped like an excluded one.
\<close>

theorem classification_counterexample:
  "shouldInclude (doc_text boundary_portal no_url_doc)
   \<and> \<not> shouldExclude (doc_text boundary_portal no_url_doc)
   \<and> process_doc boundary_portal fresh no_url_doc = fresh"
  using texts by (simp add: process_doc_def no_url_doc_def truthy_def)

section \<open>C5: validation of the session cookies\<close>

lemma validateCookies_isValid:
  "isValid (validateCookies cs) \<longleftrightarrow> cookie_set cs ''pr_fp''"
  by (simp add: validateCookies_def criticalCookiesTable_def check_cookie_def Let_def)

lemma validateCookies_errors:
  "errors (validateCookies cs)
   = (if cookie_set cs ''pr_fp'' then [] else [MissingCritical ''pr_fp'' pr_fp_description])"
  by (simp add: validateCookies_def criticalCookiesTable_def check_cookie_def Let_def)

lemma validateCookies_warnings:
  "(n, d) \<in> set criticalCookiesTable \<Longrightarrow> n \<noteq> ''pr_fp'' \<Longrightarrow>
   MissingOptional n d \<in> set (warnings (validateCookies cs)) \<longleftrightarrow> \<not> cookie_set cs n"
  by (auto simp: validateCookies_def criticalCookiesTable_def check_cookie_def Let_def)

text \<open>
  C5 (amended). For every cookie object, \<open>isValid\<close> holds if and only if \<open>pr_fp\<close> is
  present with a non-empty value, whichever optional cookies are there. When it does not
  hold, the errors are the one message that names \<open>pr_fp\<close>; otherwise there is none. An
  optional cookie (\<open>wasm\<close>, \<open>PHPSESSID\<close>, \<open>ASP.NET_SessionId\<close>) that is absent or empty
  adds a warning that names it, and never an error.
\<close>

theorem session_validation:
  "(isValid (validateCookies cs) \<longleftrightarrow> (\<exists>v. map_of cs ''pr_fp'' = Some v \<and> v \<noteq> []))
   \<and> errors (validateCookies cs)
       = (if isValid (validateCookies cs) then []
          else [MissingCritical ''pr_fp'' pr_fp_description])
   \<and> (\<forall>n d. (n, d) \<in> set criticalCookiesTable \<and> n \<noteq> ''pr_fp'' \<longrightarrow>
         (MissingOptional n d \<in> set (warnings (validateCookies cs))
          \<longleftrightarrow> \<not> (\<exists>v. map_of cs n = Some v \<and> v \<noteq> [])))"
proof -
  have c: "cookie_set cs n \<longleftrightarrow> (\<exists>v. map_of cs n = Some v \<and> v \<noteq> [])" for n
    by (simp add: cookie_set_def split: option.splits)
  show ?thesis
    using validateCookies_warnings[of _ _ cs]
    by (simp add: validateCookies_isValid validateCookies_errors c)
qed

theorem session_validation_witness:
  "isValid (validateCookies [(''PHPSESSID'', ''s1''), (''pr_fp'', ''abc'')])
   \<and> errors (validateCookies [(''PHPSESSID'', ''s1''), (''pr_fp'', ''abc'')]) = []
   \<and> \<not> isValid (validateCookies [(''wasm'', ''w'')])
   \<and> errors (validateCookies [(''wasm'', ''w'')])
       = [MissingCritical ''pr_fp'' pr_fp_description]
   \<and> (''wasm'', [87, 101, 98, 65, 115, 115, 101, 109, 98, 108, 121, 32, 1090, 1086, 1082,
        1077, 1085, 32, 40, 1086, 1087, 1094, 1080, 1086, 1085, 1072, 1083, 1100, 1085,
        1099, 1081, 41]) \<in> set criticalCookiesTable
   \<and> MissingOptional ''wasm'' [87, 101, 98, 65, 115, 115, 101, 109, 98, 108, 121, 32, 1090,
        1086, 1082, 1077, 1085, 32, 40, 1086, 1087, 1094, 1080, 1086, 1085, 1072, 1083, 1100,
        1085, 1099, 1081, 41]
       \<in> set (warnings (validateCookies [(''PHPSESSID'', ''s1''), (''pr_fp'', ''abc'')]))"
  using session_validation[of "[(''PHPSESSID'', ''s1''), (''pr_fp'', ''abc'')]"]
    session_validation[of "[(''wasm'', ''w'')]"]
  by (simp add: criticalCookiesTable_def)

text \<open>A cookie \<open>pr_fp\<close> with the empty value is present, and the session is not valid.\<close>

theorem session_validation_counterexample:
  "map_of [(''pr_fp'', '''')] ''pr_fp'' = Some ''''
   \<and> \<not> isValid (validateCookies [(''pr_fp'', '''')])
   \<and> errors (validateCookies [(''pr_fp'', '''')])
       = [MissingCritical ''pr_fp'' pr_fp_description]"
  by (simp add: validateCookies_isValid validateCookies_errors cookie_set_def)

section \<open>C9: the dates of the probe request\<close>

lemma parseDay_less: "parseDay t < parseDay f \<longleftrightarrow> t < f"
  by (simp add: parseDay_def msPerDay_def)

lemma isoDate_mono: "y \<le> x \<Longrightarrow> isoDate y \<le> isoDate x"
  unfolding isoDate_def by (intro zdiv_mono1) (simp_all add: msPerDay_def)

text \<open>A year has 365 or 366 days; the bounds used here are wider.\<close>

lemma leap_arith:
  fixes p q r :: int
  assumes "p \<le> p'" "p' \<le> p + 1" "q \<le> q'" "q' \<le> q + 1" "r \<le> r'" "r' \<le> r + 1"
  shows "365 * (y - 1970) + p - q + r + 364 \<le> 365 * (y + 1 - 1970) + p' - q' + r'
         \<and> 365 * (y + 1 - 1970) + p' - q' + r' \<le> 365 * (y - 1970) + p - q + r + 367"
  using assms by auto

lemma DayFromYear_step:
  "DayFromYear y + 364 \<le> DayFromYear (y + 1) \<and> DayFromYear (y + 1) \<le> DayFromYear y + 367"
  unfolding DayFromYear_def by (rule leap_arith) linarith+

lemma year_up_bounds:
  "DayFromYear y \<le> d \<Longrightarrow>
   DayFromYear (year_up y d) \<le> d \<and> d < DayFromYear (year_up y d + 1)"
proof (induction y d rule: year_up.induct)
  case (1 y d)
  show ?case
    using 1 by (subst (1 2) year_up.simps) simp
qed

lemma year_down_bounds:
  "d < DayFromYear (y + 1) \<Longrightarrow>
   DayFromYear (year_down y d) \<le> d \<and> d < DayFromYear (year_down y d + 1)"
proof (induction y d rule: year_down.induct)
  case (1 y d)
  show ?case
    using 1 by (subst (1 2) year_down.simps) simp
qed

text \<open>\<open>YearFromTime\<close> is the year whose days include the day of \<open>t\<close>.\<close>

lemma YearFromTime_bounds:
  "DayFromYear (YearFromTime t) \<le> t div msPerDay
   \<and> t div msPerDay < DayFromYear (YearFromTime t + 1)"
proof (cases "0 \<le> t div msPerDay")
  case True
  then show ?thesis
    using year_up_bounds[of 1970 "t div msPerDay"]
    by (simp add: YearFromTime_def DayFromYear_def)
next
  case False
  then show ?thesis
    using year_down_bounds[of "t div msPerDay" 1969]
    by (simp add: YearFromTime_def DayFromYear_def)
qed

lemma late_arith:
  fixes p q r y :: int
  assumes "4 * p \<le> y - 1969" "y - 1901 < 100 * q + 100" "400 * r \<le> y - 1601"
    and "- 368 \<le> 365 * (y - 1970) + p - q + r"
  shows "100 \<le> y"
proof -
  have "400 * p \<le> 100 * y - 196900"
    using assms(1) by simp
  moreover have "- (400 * q) < 8004 - 4 * y"
    using assms(2) by simp
  moreover have "- 147200 \<le> 146000 * y - 287620000 + 400 * p - 400 * q + 400 * r"
    using assms(4) by simp
  ultimately show ?thesis
    using assms(3) by simp
qed

lemma DayFromYear_late: "- 368 \<le> DayFromYear y \<Longrightarrow> 100 \<le> y"
  unfolding DayFromYear_def by (rule late_arith[where p = "(y - 1969) div 4"
        and q = "(y - 1901) div 100" and r = "(y - 1601) div 400"]) linarith+

text \<open>
  With a clock after 1970 and two days before the end of the range of \<open>Date\<close>, the
  default from-date is a valid date: local midnight of January 1 of the local year.
\<close>

lemma defaultFrom_valid:
  assumes "0 \<le> today" and "today + 2 * msPerDay \<le> maxTime"
  shows "newDate_Jan1 z (getFullYear z today)
         = Some (UTC z (DayFromYear (getFullYear z today) * msPerDay))"
    and "DayFromYear (getFullYear z today) * msPerDay \<le> LocalTime z today"
proof -
  define l where "l = LocalTime z today"
  define y where "y = getFullYear z today"
  define j where "j = DayFromYear y * msPerDay"
  have o1: "- msPerDay < l - today \<and> l - today < msPerDay"
    using Rep_tz_offset[of "z today True"] by (simp add: l_def LocalTime_def)
  have o2: "- msPerDay < j - UTC z j \<and> j - UTC z j < msPerDay"
    using Rep_tz_offset[of "z j False"] by (simp add: UTC_def)
  have b: "DayFromYear y \<le> l div msPerDay \<and> l div msPerDay < DayFromYear (y + 1)"
    using YearFromTime_bounds[of l] by (simp add: y_def getFullYear_def l_def)
  have s: "DayFromYear (y + 1) \<le> DayFromYear y + 367"
    using DayFromYear_step[of y] by simp
  have d: "- 1 \<le> l div msPerDay"
    using o1 assms(1) unfolding msPerDay_def by linarith
  have late: "100 \<le> y"
    using b s d by (intro DayFromYear_late) linarith
  have jl: "j \<le> l"
  proof -
    have "j \<le> (l div msPerDay) * msPerDay"
      using b by (simp add: j_def msPerDay_def)
    also have "\<dots> \<le> l"
      by (simp add: msPerDay_def)
    finally show ?thesis .
  qed
  have jlo: "- 368 * msPerDay \<le> j"
    using b s d by (simp add: j_def msPerDay_def)
  have "- maxTime \<le> UTC z j \<and> UTC z j \<le> maxTime"
    using o1 o2 jl jlo assms by (simp add: msPerDay_def maxTime_def)
  then show "newDate_Jan1 z (getFullYear z today)
         = Some (UTC z (DayFromYear (getFullYear z today) * msPerDay))"
    using late by (simp add: newDate_Jan1_def timeClip_def y_def[symmetric] j_def[symmetric])
  show "DayFromYear (getFullYear z today) * msPerDay \<le> LocalTime z today"
    using jl by (simp add: j_def y_def l_def)
qed

lemma getApiDates_min_max:
  assumes "newDate_Jan1 z (getFullYear z today) = Some j"
  shows "getApiDates z today dateFrom dateTo
   = \<lparr>DateFrom = Some (min (case dateFrom of Truthy (Some a) \<Rightarrow> isoDate a | _ \<Rightarrow> isoDate j)
                          (case dateTo of Truthy (Some b) \<Rightarrow> isoDate b | _ \<Rightarrow> isoDate today)),
      DateTo = Some (max (case dateFrom of Truthy (Some a) \<Rightarrow> isoDate a | _ \<Rightarrow> isoDate j)
                        (case dateTo of Truthy (Some b) \<Rightarrow> isoDate b | _ \<Rightarrow> isoDate today))\<rparr>"
  using assms
  by (auto simp: getApiDates_def formatDate_def parseDay_less Let_def min_def max_def
           split: date_arg.splits option.splits)

text \<open>At or west of UTC, local midnight of January 1 falls on the UTC day January 1.\<close>

lemma defaultFrom_west:
  assumes "\<forall>t u. Rep_tz_offset (z t u) \<le> 0"
  shows "isoDate (UTC z (k * msPerDay)) = k"
    and "isoDate (LocalTime z today) \<le> isoDate today"
proof -
  have "- msPerDay < Rep_tz_offset (z (k * msPerDay) False)
        \<and> Rep_tz_offset (z (k * msPerDay) False) \<le> 0"
    using Rep_tz_offset[of "z (k * msPerDay) False"] assms by simp
  then have "(k * msPerDay - Rep_tz_offset (z (k * msPerDay) False)) div msPerDay = k"
    unfolding msPerDay_def by linarith
  then show "isoDate (UTC z (k * msPerDay)) = k"
    by (simp add: isoDate_def UTC_def)
  show "isoDate (LocalTime z today) \<le> isoDate today"
    using assms by (intro isoDate_mono) (simp add: LocalTime_def)
qed

text \<open>
  C9 (amended). With a clock after 1970 (and two days before the end of the range of
  \<open>Date\<close>), \<open>getApiDates\<close> returns two dates with \<open>DateFrom \<le> DateTo\<close>. Two truthy
  parseable arguments of which the first is the later one come back swapped. An argument
  that is falsy (\<open>null\<close>, \<open>undefined\<close>, \<open>''\<close>, and also the parseable \<open>0\<close> and \<open>false\<close>)
  or unparseable is replaced by its default before the two are compared, and the result
  is the earlier and the later of the two resolved days. The default of the to-date is
  the UTC day of today; that of the from-date is the day \<open>formatDate\<close> makes of
  \<open>new Date(today.getFullYear(), 0, 1)\<close>, which is January 1 of the current local year
  when the zone of the process is at or west of UTC.
\<close>

theorem getApiDates_ordered:
  assumes "0 \<le> today" and "today + 2 * msPerDay \<le> maxTime"
  shows "(\<exists>f t. getApiDates z today dateFrom dateTo = \<lparr>DateFrom = Some f, DateTo = Some t\<rparr>
            \<and> f \<le> t)
   \<and> (dateFrom = Truthy (Some x) \<and> dateTo = Truthy (Some y) \<and> y < x \<longrightarrow>
        getApiDates z today dateFrom dateTo
        = \<lparr>DateFrom = Some (isoDate y), DateTo = Some (isoDate x)\<rparr>)
   \<and> getApiDates z today dateFrom dateTo
       = \<lparr>DateFrom =
            Some (min (case dateFrom of
                         Truthy (Some a) \<Rightarrow> isoDate a
                       | _ \<Rightarrow> isoDate (UTC z (DayFromYear (getFullYear z today) * msPerDay)))
                      (case dateTo of Truthy (Some b) \<Rightarrow> isoDate b | _ \<Rightarrow> isoDate today)),
          DateTo =
            Some (max (case dateFrom of
                         Truthy (Some a) \<Rightarrow> isoDate a
                       | _ \<Rightarrow> isoDate (UTC z (DayFromYear (getFullYear z today) * msPerDay)))
                      (case dateTo of Truthy (Some b) \<Rightarrow> isoDate b | _ \<Rightarrow> isoDate today))\<rparr>
   \<and> DayFromYear (getFullYear z today) \<le> isoDate (LocalTime z today)
   \<and> isoDate (LocalTime z today) < DayFromYear (getFullYear z today + 1)
   \<and> ((\<forall>t u. Rep_tz_offset (z t u) \<le> 0)
        \<and> formatDate dateFrom = None \<and> formatDate dateTo = None \<longrightarrow>
        getApiDates z today dateFrom dateTo
        = \<lparr>DateFrom = Some (DayFromYear (getFullYear z today)),
           DateTo = Some (isoDate today)\<rparr>)"
proof -
  let ?from = "case dateFrom of
                 Truthy (Some a) \<Rightarrow> isoDate a
               | _ \<Rightarrow> isoDate (UTC z (DayFromYear (getFullYear z today) * msPerDay))"
  let ?to = "case dateTo of Truthy (Some b) \<Rightarrow> isoDate b | _ \<Rightarrow> isoDate today"
  have m: "getApiDates z today dateFrom dateTo
           = \<lparr>DateFrom = Some (min ?from ?to), DateTo = Some (max ?from ?to)\<rparr>"
    using defaultFrom_valid(1)[OF assms] by (rule getApiDates_min_max)
  have a: "\<exists>f t. getApiDates z today dateFrom dateTo = \<lparr>DateFrom = Some f, DateTo = Some t\<rparr>
            \<and> f \<le> t"
    by (subst m) simp
  have b: "dateFrom = Truthy (Some x) \<and> dateTo = Truthy (Some y) \<and> y < x \<longrightarrow>
        getApiDates z today dateFrom dateTo
        = \<lparr>DateFrom = Some (isoDate y), DateTo = Some (isoDate x)\<rparr>"
    using isoDate_mono[of y x] by (subst m) (auto simp: min_def max_def)
  have c: "DayFromYear (getFullYear z today) \<le> isoDate (LocalTime z today)
           \<and> isoDate (LocalTime z today) < DayFromYear (getFullYear z today + 1)"
    using YearFromTime_bounds[of "LocalTime z today"] by (simp add: getFullYear_def isoDate_def)
  have d: "(\<forall>t u. Rep_tz_offset (z t u) \<le> 0)
        \<and> formatDate dateFrom = None \<and> formatDate dateTo = None \<longrightarrow>
        getApiDates z today dateFrom dateTo
        = \<lparr>DateFrom = Some (DayFromYear (getFullYear z today)),
           DateTo = Some (isoDate today)\<rparr>"
  proof
    assume h: "(\<forall>t u. Rep_tz_offset (z t u) \<le> 0)
        \<and> formatDate dateFrom = None \<and> formatDate dateTo = None"
    then have w: "\<forall>t u. Rep_tz_offset (z t u) \<le> 0"
      by simp
    have f: "?from = DayFromYear (getFullYear z today)"
      using h defaultFrom_west(1)[OF w]
      by (auto simp: formatDate_def split: date_arg.splits option.splits)
    have t: "?to = isoDate today"
      using h by (auto simp: formatDate_def split: date_arg.splits option.splits)
    have "DayFromYear (getFullYear z today) \<le> isoDate today"
      using c defaultFrom_west(2)[OF w, of today] by linarith
    then show "getApiDates z today dateFrom dateTo
        = \<lparr>DateFrom = Some (DayFromYear (getFullYear z today)),
           DateTo = Some (isoDate today)\<rparr>"
      by (simp only: m f t) (simp add: min_def max_def)
  qed
  show ?thesis
    using a b m c d by blast
qed

theorem getApiDates_ordered_witness:
  "(0::int) \<le> 1718452800000 \<and> 1718452800000 + 2 * msPerDay \<le> maxTime
   \<and> (1702080000000::int) < 1710720000000
   \<and> getApiDates utc_zone 1718452800000
       (Truthy (Some 1710720000000)) (Truthy (Some 1702080000000))
      = \<lparr>DateFrom = Some 19700, DateTo = Some 19800\<rparr>
   \<and> (\<forall>t u. Rep_tz_offset (utc_zone t u) \<le> 0)
   \<and> formatDate (Falsy None) = None \<and> formatDate (Truthy None) = None
   \<and> getFullYear utc_zone 1718452800000 = 2024 \<and> DayFromYear 2024 = 19723
   \<and> getApiDates utc_zone 1718452800000 (Falsy None) (Truthy None)
      = \<lparr>DateFrom = Some 19723, DateTo = Some 19889\<rparr>"
proof -
  have h: "(0::int) \<le> 1718452800000" "1718452800000 + 2 * msPerDay \<le> maxTime"
    by (simp_all add: msPerDay_def maxTime_def)
  have y: "getFullYear utc_zone 1718452800000 = 2024"
    by (simp add: getFullYear_def LocalTime_def Rep_utc_zone YearFromTime_def msPerDay_def
        year_up.simps DayFromYear_def)
  have j: "DayFromYear 2024 = 19723"
    by (simp add: DayFromYear_def)
  have w: "\<forall>t u. Rep_tz_offset (utc_zone t u) \<le> 0"
    by (simp add: Rep_utc_zone)
  have f: "formatDate (Falsy None) = None" "formatDate (Truthy None) = None"
    by (simp_all add: formatDate_def)
  note t = getApiDates_ordered[OF h, where z = utc_zone]
  have "getApiDates utc_zone 1718452800000
          (Truthy (Some 1710720000000)) (Truthy (Some 1702080000000))
        = \<lparr>DateFrom = Some (isoDate 1702080000000), DateTo = Some (isoDate 1710720000000)\<rparr>"
    by (rule t[where dateFrom = "Truthy (Some 1710720000000)"
          and dateTo = "Truthy (Some 1702080000000)" and x = 1710720000000
          and y = 1702080000000, THEN conjunct2, THEN conjunct1, THEN mp]) simp
  moreover have "getApiDates utc_zone 1718452800000 (Falsy None) (Truthy None)
        = \<lparr>DateFrom = Some (DayFromYear (getFullYear utc_zone 1718452800000)),
           DateTo = Some (isoDate 1718452800000)\<rparr>"
    by (rule t[where dateFrom = "Falsy None" and dateTo = "Truthy None",
          THEN conjunct2, THEN conjunct2, THEN conjunct2, THEN conjunct2, THEN conjunct2,
          THEN mp]) (simp add: w f)
  ultimately show ?thesis
    using h w f y j by (simp add: isoDate_def msPerDay_def)
qed

text \<open>
  On 2024-06-15 in a process that runs in UTC, the from-date 2024-03-18 and the to-date
  \<open>0\<close>, which \<open>new Date\<close> parses as 1970-01-01: the two are not swapped, the to-date is
  replaced by today. On the same day three hours east of UTC, with no arguments as in
  the one call of the program: the from-date is 2023-12-31, the day before January 1
  of the current year (day 19723).
\<close>

theorem getApiDates_counterexample:
  "getApiDates utc_zone 1718452800000 (Truthy (Some 1710720000000)) (Falsy (Some 0))
     = \<lparr>DateFrom = Some 19800, DateTo = Some 19889\<rparr>
   \<and> isoDate 0 = 0 \<and> isoDate 1710720000000 = 19800
   \<and> getApiDates moscow 1718452800000 (Falsy (Some 0)) (Falsy (Some 0))
     = \<lparr>DateFrom = Some 19722, DateTo = Some 19889\<rparr>
   \<and> getFullYear moscow 1718452800000 = 2024 \<and> DayFromYear 2024 = 19723"
  by (simp add: getApiDates_def formatDate_def getFullYear_def newDate_Jan1_def
      LocalTime_def UTC_def Rep_moscow Rep_utc_zone YearFromTime_def msPerDay_def
      year_up.simps DayFromYear_def timeClip_def maxTime_def isoDate_def parseDay_def)

section \<open>C10: statistics\<close>

text \<open>
  C10 (amended). \<open>getStats\<close> never throws. Without a readable, parsable
  \<open>metadata.json\<close> it returns \<open>{total_documents: 0, last_update: null}\<close>, and so it does
  for a file that holds anything but an object. For an object it returns the file's
  \<open>total_documents\<close>, or 0 when that is missing or falsy, and the file's
  \<open>processed_at\<close>, or \<open>null\<close> when that is missing or falsy.
\<close>

theorem getStats_total:
  "getStats Absent = \<lparr>total_documents = JNumber 0, last_update = JNull\<rparr>
   \<and> getStats Unreadable = \<lparr>total_documents = JNumber 0, last_update = JNull\<rparr>
   \<and> getStats (Content None) = \<lparr>total_documents = JNumber 0, last_update = JNull\<rparr>
   \<and> getStats (Content (Some (JObject props)))
       = \<lparr>total_documents =
            (case map_of props ''total_documents'' of
               None \<Rightarrow> JNumber 0
             | Some v \<Rightarrow> if falsy v then JNumber 0 else v),
          last_update =
            (case map_of props ''processed_at'' of
               None \<Rightarrow> JNull
             | Some v \<Rightarrow> if falsy v then JNull else v)\<rparr>
   \<and> ((\<forall>props. metadata \<noteq> JObject props) \<longrightarrow>
         getStats (Content (Some metadata))
         = \<lparr>total_documents = JNumber 0, last_update = JNull\<rparr>)"
  by (cases metadata)
     (simp_all add: getStats_def getStats_try_def property_def or_else_def no_stats_def)

theorem getStats_total_witness:
  "getStats (Content (Some (JObject
      [(''processed_at'', JString [50, 48, 50, 52]), (''total_documents'', JNumber 3),
       (''documents'', JArray [])])))
   = \<lparr>total_documents = JNumber 3, last_update = JString [50, 48, 50, 52]\<rparr>
   \<and> getStats (Content (Some (JObject [])))
       = \<lparr>total_documents = JNumber 0, last_update = JNull\<rparr>
   \<and> getStats (Content (Some (JArray [JNumber 1])))
       = \<lparr>total_documents = JNumber 0, last_update = JNull\<rparr>"
  using getStats_total[where props = "[(''processed_at'', JString [50, 48, 50, 52]),
        (''total_documents'', JNumber 3), (''documents'', JArray [])]"]
    getStats_total[where props = "[]"]
    getStats_total[where metadata = "JArray [JNumber 1]"]
  by (simp add: falsy_def)

text \<open>
  A file with \<open>total_documents: false\<close> and \<open>processed_at: ""\<close> has both fields, and
  \<open>getStats\<close> returns 0 and \<open>null\<close> for them.
\<close>

theorem getStats_falsy_counterexample:
  "map_of [(''total_documents'', JBool False), (''processed_at'', JString [])]
      ''total_documents'' = Some (JBool False)
   \<and> map_of [(''total_documents'', JBool False), (''processed_at'', JString [])]
      ''processed_at'' = Some (JString [])
   \<and> getStats (Content (Some (JObject
        [(''total_documents'', JBool False), (''processed_at'', JString [])])))
       = \<lparr>total_documents = JNumber 0, last_update = JNull\<rparr>"
  by (simp add: getStats_def getStats_try_def property_def or_else_def falsy_def)

section \<open>C8: the output of a command\<close>

lemma is_json_logs: "filter is_json (replicate n Log) = []"
  by (induction n) simp_all

lemma with_browser_json:
  assumes "length (filter is_json (fst rest)) = (if snd rest = None then 1 else 0)"
  shows "length (filter is_json (fst (with_browser w rest)))
         = (if snd (snd (with_browser w rest)) = None then 1 else 0)"
  using assms by (cases "init_result w") (simp_all add: with_browser_def init_def)

lemma with_browser_browser:
  "fst (snd (with_browser w rest)) \<longleftrightarrow> (\<forall>m. init_result w \<noteq> LaunchFails m)"
  by (cases "init_result w") (simp_all add: with_browser_def init_def)

lemma try_block_json:
  "length (filter is_json (fst (try_block w a)))
   = (if snd (snd (try_block w a)) = None then 1 else 0)"
proof -
  have l: "filter is_json (loadCookies w) = []"
    by (simp add: loadCookies_def)
  consider "command a = ''init''" | "command a = ''loadCookies''"
    | "command a = ''searchDocuments''" | "command a = ''processDateRange''"
    | "command a = ''getStats''" | "command a = ''close''"
    | "\<not> starts_browser (command a)" "command a \<noteq> ''getStats''" "command a \<noteq> ''close''"
    by (auto simp: starts_browser_def)
  then show ?thesis
  proof cases
    case 1
    then show ?thesis
      by (simp add: try_block_def split del: if_split)
         (rule with_browser_json, simp)
  next
    case 2
    then show ?thesis
      by (simp add: try_block_def split del: if_split)
         (rule with_browser_json, simp add: l)
  next
    case 3
    then show ?thesis
      by (simp add: try_block_def split del: if_split)
         (rule with_browser_json, simp add: l Let_def split: sum.splits)
  next
    case 4
    then show ?thesis
      by (simp add: try_block_def split del: if_split)
         (rule with_browser_json, simp add: l is_json_logs Let_def split: sum.splits)
  next
    case 5
    then show ?thesis
      by (simp add: try_block_def)
  next
    case 6
    then show ?thesis
      by (simp add: try_block_def)
  next
    case 7
    then show ?thesis
      by (simp add: try_block_def starts_browser_def)
  qed
qed

lemma try_block_browser:
  "fst (snd (try_block w a))
   \<longleftrightarrow> starts_browser (command a) \<and> (\<forall>m. init_result w \<noteq> LaunchFails m)"
  by (simp add: try_block_def with_browser_browser starts_browser_def)

lemma main_json:
  "filter is_json (fst (main w a))
   = filter is_json (fst (try_block w a))
     @ (case snd (snd (try_block w a)) of
          None \<Rightarrow> [] | Some m \<Rightarrow> [Json (failed (Thrown m))])
     @ (if fst (snd (try_block w a))
        then (case close_error w of None \<Rightarrow> [] | Some m \<Rightarrow> [Json (failed (Thrown m))])
        else [])"
proof -
  obtain tried browser thrown where t: "try_block w a = (tried, browser, thrown)"
    by (cases "try_block w a") auto
  show ?thesis
    by (simp add: main_def t Let_def split: option.splits)
qed

lemma with_browser_out:
  "filter is_json (fst (with_browser w rest))
     @ (case snd (snd (with_browser w rest)) of
          None \<Rightarrow> [] | Some m \<Rightarrow> [Json (failed (Thrown m))])
   = (case init_result w of
        InitOk \<Rightarrow> filter is_json (fst rest)
                    @ (case snd rest of None \<Rightarrow> [] | Some m \<Rightarrow> [Json (failed (Thrown m))])
      | LaunchFails m \<Rightarrow> [Json (failed (Thrown m))]
      | SetupFails m \<Rightarrow> [Json (failed (Thrown m))])"
  by (cases "init_result w") (simp_all add: with_browser_def init_def)

text \<open>
  C8 (amended). Besides the log lines of the parser, an invocation writes one JSON object
  \<open>{success, data?, error?, message?}\<close> to standard output and exits with code 0, unless
  the \<open>browser.close()\<close> of the \<open>finally\<close> block throws: then a second object
  \<open>{success: false, error}\<close> with the message of that error follows the first and the
  exit code is 1. That happens only for the commands that start a browser, when the
  browser was launched. The first object is the reply of the command; when \<open>init\<close>,
  \<open>searchDocuments\<close> or \<open>processDateRange\<close> throws, it is \<open>{success: false, error}\<close>
  with the message of the thrown error.
\<close>

theorem command_output:
  "length (filter is_json (fst (main w a))) = (if snd (main w a) = 0 then 1 else 2)
   \<and> (snd (main w a) = 0 \<or> snd (main w a) = 1)
   \<and> (snd (main w a) = 1
        \<longleftrightarrow> starts_browser (command a) \<and> (\<forall>m. init_result w \<noteq> LaunchFails m)
            \<and> close_error w \<noteq> None)
   \<and> tl (filter is_json (fst (main w a)))
       = (if starts_browser (command a) \<and> (\<forall>m. init_result w \<noteq> LaunchFails m)
          then (case close_error w of
                  None \<Rightarrow> []
                | Some m \<Rightarrow>
                    [Json \<lparr>success = False, data = None, error = Some (Thrown m),
                           message = None\<rparr>])
          else [])
   \<and> (starts_browser (command a)
        \<and> (init_result w = LaunchFails m \<or> init_result w = SetupFails m) \<longrightarrow>
        hd (filter is_json (fst (main w a)))
        = Json \<lparr>success = False, data = None, error = Some (Thrown m), message = None\<rparr>)
   \<and> (init_result w = InitOk \<and> command a = ''searchDocuments'' \<and> params a
        \<and> search_result w = Inl m \<longrightarrow>
        hd (filter is_json (fst (main w a)))
        = Json \<lparr>success = False, data = None, error = Some (Thrown m), message = None\<rparr>)
   \<and> (init_result w = InitOk \<and> command a = ''processDateRange''
        \<and> start_date a \<and> end_date a \<and> range_result w = Inl m \<longrightarrow>
        hd (filter is_json (fst (main w a)))
        = Json \<lparr>success = False, data = None, error = Some (Thrown m), message = None\<rparr>)
   \<and> (init_result w = InitOk \<and> command a = ''searchDocuments'' \<and> params a
        \<and> search_result w = Inr d \<longrightarrow>
        hd (filter is_json (fst (main w a)))
        = Json \<lparr>success = True, data = Some d, error = None, message = None\<rparr>)
   \<and> (init_result w = InitOk \<and> command a = ''processDateRange''
        \<and> start_date a \<and> end_date a \<and> range_result w = Inr d \<longrightarrow>
        hd (filter is_json (fst (main w a)))
        = Json \<lparr>success = True, data = Some d, error = None, message = None\<rparr>)
   \<and> (init_result w = InitOk \<and> command a = ''searchDocuments'' \<and> \<not> params a \<longrightarrow>
        hd (filter is_json (fst (main w a)))
        = Json \<lparr>success = False, data = None, error = Some NoSearchParams, message = None\<rparr>)
   \<and> (init_result w = InitOk \<and> command a = ''processDateRange''
        \<and> \<not> (start_date a \<and> end_date a) \<longrightarrow>
        hd (filter is_json (fst (main w a)))
        = Json \<lparr>success = False, data = None, error = Some NoDates, message = None\<rparr>)
   \<and> (init_result w = InitOk \<and> command a = ''init'' \<longrightarrow>
        hd (filter is_json (fst (main w a)))
        = Json \<lparr>success = True, data = None, error = None,
                 message = Some BrowserInitialized\<rparr>)
   \<and> (init_result w = InitOk \<and> command a = ''loadCookies'' \<longrightarrow>
        hd (filter is_json (fst (main w a)))
        = Json (if cookies_file a
                then \<lparr>success = loadCookies_result w, data = None, error = None,
                      message = Some (if loadCookies_result w then CookiesLoaded
                                      else CookiesLoadError)\<rparr>
                else \<lparr>success = False, data = None, error = Some NoCookiesFile,
                      message = None\<rparr>))
   \<and> (command a = ''getStats'' \<longrightarrow>
        hd (filter is_json (fst (main w a)))
        = Json \<lparr>success = True, data = Some (stats_result w), error = None, message = None\<rparr>)
   \<and> (command a = ''close'' \<longrightarrow>
        hd (filter is_json (fst (main w a)))
        = Json \<lparr>success = True, data = None, error = None, message = Some BrowserClosed\<rparr>)
   \<and> (\<not> starts_browser (command a) \<and> command a \<noteq> ''getStats'' \<and> command a \<noteq> ''close'' \<longrightarrow>
        hd (filter is_json (fst (main w a)))
        = Json \<lparr>success = False, data = None, error = Some (UnknownCommand (command a)),
                 message = None\<rparr>)"
proof -
  let ?js = "filter is_json (fst (main w a))"
  let ?first = "filter is_json (fst (try_block w a))
     @ (case snd (snd (try_block w a)) of
          None \<Rightarrow> [] | Some m \<Rightarrow> [Json (failed (Thrown m))])"
  let ?closing = "if starts_browser (command a) \<and> (\<forall>m. init_result w \<noteq> LaunchFails m)
          then (case close_error w of
                  None \<Rightarrow> []
                | Some m \<Rightarrow>
                    [Json \<lparr>success = False, data = None, error = Some (Thrown m),
                           message = None\<rparr>])
          else []"
  obtain tried browser thrown where t: "try_block w a = (tried, browser, thrown)"
    by (cases "try_block w a") auto
  have j: "length (filter is_json tried) = (if thrown = None then 1 else 0)"
    using try_block_json[of w a] by (simp add: t)
  have b: "browser \<longleftrightarrow> starts_browser (command a) \<and> (\<forall>m. init_result w \<noteq> LaunchFails m)"
    using try_block_browser[of w a] by (simp add: t)
  have count: "length ?js = (if snd (main w a) = 0 then 1 else 2)
      \<and> (snd (main w a) = 0 \<or> snd (main w a) = 1)
      \<and> (snd (main w a) = 1
           \<longleftrightarrow> starts_browser (command a) \<and> (\<forall>m. init_result w \<noteq> LaunchFails m)
               \<and> close_error w \<noteq> None)"
    using j b by (auto simp: main_def t Let_def split: option.splits)
  have js: "?js = ?first @ ?closing"
    using b by (simp add: main_json t failed_def split: option.splits)
  have "length ?first = 1"
    using j by (simp add: t split: option.splits)
  then obtain r where r: "?first = [r]"
    by (cases ?first) auto
  have tail: "tl ?js = ?closing"
    by (simp only: js r) simp
  have head: "hd ?js = r"
    by (simp only: js r) simp
  have l: "filter is_json (loadCookies w) = []"
    by (simp add: loadCookies_def)
  have first: "hd ?js = x" if "?first = [x]" for x
    using that head r by simp
  have launch: "starts_browser (command a)
        \<and> (init_result w = LaunchFails m \<or> init_result w = SetupFails m) \<longrightarrow>
      hd ?js = Json \<lparr>success = False, data = None, error = Some (Thrown m), message = None\<rparr>"
    by (intro impI first) (auto simp: starts_browser_def try_block_def with_browser_out failed_def)
  have search_throws: "init_result w = InitOk \<and> command a = ''searchDocuments'' \<and> params a
        \<and> search_result w = Inl m \<longrightarrow>
      hd ?js = Json \<lparr>success = False, data = None, error = Some (Thrown m), message = None\<rparr>"
    by (intro impI first) (simp add: try_block_def with_browser_out failed_def l Let_def)
  have range_throws: "init_result w = InitOk \<and> command a = ''processDateRange''
        \<and> start_date a \<and> end_date a \<and> range_result w = Inl m \<longrightarrow>
      hd ?js = Json \<lparr>success = False, data = None, error = Some (Thrown m), message = None\<rparr>"
    by (intro impI first) (simp add: try_block_def with_browser_out failed_def l is_json_logs Let_def)
  have search_returns: "init_result w = InitOk \<and> command a = ''searchDocuments'' \<and> params a
        \<and> search_result w = Inr d \<longrightarrow>
      hd ?js = Json \<lparr>success = True, data = Some d, error = None, message = None\<rparr>"
    by (intro impI first) (simp add: try_block_def with_browser_out returned_def l Let_def)
  have range_returns: "init_result w = InitOk \<and> command a = ''processDateRange''
        \<and> start_date a \<and> end_date a \<and> range_result w = Inr d \<longrightarrow>
      hd ?js = Json \<lparr>success = True, data = Some d, error = None, message = None\<rparr>"
    by (intro impI first) (simp add: try_block_def with_browser_out returned_def l is_json_logs Let_def)
  have no_params: "init_result w = InitOk \<and> command a = ''searchDocuments'' \<and> \<not> params a \<longrightarrow>
      hd ?js = Json \<lparr>success = False, data = None, error = Some NoSearchParams,
                     message = None\<rparr>"
    by (intro impI first) (simp add: try_block_def with_browser_out failed_def l Let_def)
  have no_dates: "init_result w = InitOk \<and> command a = ''processDateRange''
        \<and> \<not> (start_date a \<and> end_date a) \<longrightarrow>
      hd ?js = Json \<lparr>success = False, data = None, error = Some NoDates, message = None\<rparr>"
    by (intro impI first) (auto simp: try_block_def with_browser_out failed_def l Let_def)
  have initialized: "init_result w = InitOk \<and> command a = ''init'' \<longrightarrow>
      hd ?js = Json \<lparr>success = True, data = None, error = None,
                     message = Some BrowserInitialized\<rparr>"
    by (intro impI first) (simp add: try_block_def with_browser_out succeeded_def)
  have cookies: "init_result w = InitOk \<and> command a = ''loadCookies'' \<longrightarrow>
      hd ?js = Json (if cookies_file a
                then \<lparr>success = loadCookies_result w, data = None, error = None,
                      message = Some (if loadCookies_result w then CookiesLoaded
                                      else CookiesLoadError)\<rparr>
                else \<lparr>success = False, data = None, error = Some NoCookiesFile,
                      message = None\<rparr>)"
    by (intro impI first) (simp add: try_block_def with_browser_out failed_def l)
  have stats: "command a = ''getStats'' \<longrightarrow>
      hd ?js = Json \<lparr>success = True, data = Some (stats_result w), error = None,
                     message = None\<rparr>"
    by (intro impI first) (simp add: try_block_def returned_def)
  have closed: "command a = ''close'' \<longrightarrow>
      hd ?js = Json \<lparr>success = True, data = None, error = None,
                     message = Some BrowserClosed\<rparr>"
    by (intro impI first) (simp add: try_block_def succeeded_def)
  have other: "\<not> starts_browser (command a) \<and> command a \<noteq> ''getStats''
        \<and> command a \<noteq> ''close'' \<longrightarrow>
      hd ?js = Json \<lparr>success = False, data = None, error = Some (UnknownCommand (command a)),
                     message = None\<rparr>"
    by (intro impI first) (simp add: try_block_def starts_browser_def failed_def)
  show ?thesis
    using count[THEN conjunct1] count[THEN conjunct2, THEN conjunct1]
      count[THEN conjunct2, THEN conjunct2] tail launch search_throws range_throws
      search_returns range_returns no_params no_dates initialized cookies stats closed other
    by - (intro conjI; assumption)
qed

theorem command_output_witness:
  "main calm init_args = ([Log, Log, Log, Json (succeeded BrowserInitialized), Log], 0)
   \<and> length (filter is_json (fst (main calm init_args))) = 1
   \<and> init_result calm = InitOk \<and> command init_args = ''init''
   \<and> hd (filter is_json (fst (main calm init_args)))
       = Json \<lparr>success = True, data = None, error = None, message = Some BrowserInitialized\<rparr>
   \<and> starts_browser (command init_args)
   \<and> init_result (calm\<lparr>init_result := LaunchFails ''no chrome''\<rparr>) = LaunchFails ''no chrome''
   \<and> hd (filter is_json (fst (main (calm\<lparr>init_result := LaunchFails ''no chrome''\<rparr>) init_args)))
       = Json \<lparr>success = False, data = None, error = Some (Thrown ''no chrome''),
                message = None\<rparr>"
proof -
  have c: "init_result calm = InitOk \<and> command init_args = ''init''"
    by (simp add: calm_def init_args_def)
  have s: "starts_browser (command init_args)"
    by (simp add: starts_browser_def init_args_def)
  have m: "main calm init_args = ([Log, Log, Log, Json (succeeded BrowserInitialized), Log], 0)"
    by (simp add: main_def try_block_def with_browser_def init_def calm_def init_args_def)
  note t = command_output[where w = calm and a = init_args]
  note u = command_output[where w = "calm\<lparr>init_result := LaunchFails ''no chrome''\<rparr>"
      and a = init_args and m = "''no chrome''"]
  have "length (filter is_json (fst (main calm init_args))) = 1"
    using t[THEN conjunct1] by (simp add: m)
  moreover have "hd (filter is_json (fst (main calm init_args)))
       = Json \<lparr>success = True, data = None, error = None, message = Some BrowserInitialized\<rparr>"
    by (rule t[THEN conjunct2, THEN conjunct2, THEN conjunct2, THEN conjunct2,
          THEN conjunct2, THEN conjunct2, THEN conjunct2, THEN conjunct2, THEN conjunct2,
          THEN conjunct2, THEN conjunct2, THEN conjunct1, THEN mp]) (rule c)
  moreover have "hd (filter is_json
         (fst (main (calm\<lparr>init_result := LaunchFails ''no chrome''\<rparr>) init_args)))
       = Json \<lparr>success = False, data = None, error = Some (Thrown ''no chrome''),
                message = None\<rparr>"
    by (rule u[THEN conjunct2, THEN conjunct2, THEN conjunct2, THEN conjunct2,
          THEN conjunct1, THEN mp]) (simp add: s)
  ultimately show ?thesis
    using c s m by simp
qed

text \<open>
  \<open>init\<close> on a browser that works: five lines, of which the fourth is the JSON object.
  \<open>init\<close> on a browser whose \<open>close\<close> throws: two JSON objects.
\<close>

theorem command_output_counterexample:
  "main calm init_args = ([Log, Log, Log, Json (succeeded BrowserInitialized), Log], 0)
   \<and> main (calm\<lparr>close_error := Some ''Target closed''\<rparr>) init_args
       = ([Log, Log, Log, Json (succeeded BrowserInitialized),
           Json (failed (Thrown ''Target closed''))], 1)"
  by (simp add: main_def try_block_def with_browser_def init_def calm_def init_args_def)

end
